theory Spec2Isabelle
  imports
    Complex_Main
    "HOL-Library.Char_ord"
    "HOL-Library.List_Lexorder"
    "HOL-Library.Multiset"
    "HOL-Library.Product_Lexorder"
begin

section \<open>The schedule model (models.py)\<close>

text \<open>
  A Python string is modelled as a \<open>string\<close>, the list of its code points; the type
  \<open>char\<close> has the code points below 256. Every string the source compares against or
  splits on is ASCII. Python integers are unbounded, hence \<open>int\<close>.
  Every exception the modelled functions can raise is a \<open>ValueError\<close>: the explicit
  \<open>raise\<close> of \<open>Course.get_time\<close>, a failed tuple unpacking, and a failed \<open>int(...)\<close>.
\<close>

datatype error = ValueError

definition DAYS_OF_WEEK :: "string list" where
  "DAYS_OF_WEEK = [''H'', ''K'', ''SZE'', ''CS'', ''P'']"

record Time =
  hour :: int
  minute :: int

definition to_minutes :: "Time \<Rightarrow> int" where
  "to_minutes t = hour t * 60 + minute t"

record ClassTime =
  day :: string
  start_time :: Time
  end_time :: Time

record Course =
  code :: string
  time :: string

record Subject =
  name :: string
  code :: string
  credits :: int
  courses :: "Course list"

record Timetable =
  subjects :: "Subject list"

subsection \<open>The string primitives the model uses\<close>

text \<open>\<open>s.split(sep)\<close> for a one-character separator: every occurrence splits.\<close>

fun split_chr :: "char \<Rightarrow> string \<Rightarrow> string list" where
  "split_chr sep [] = [[]]"
| "split_chr sep (c # cs) =
     (if c = sep then [] # split_chr sep cs
      else (case split_chr sep cs of
              [] \<Rightarrow> [[c]]
            | p # ps \<Rightarrow> (c # p) # ps))"

text \<open>\<open>s.split(sep, 1)\<close>: only the first occurrence splits.\<close>

definition split_once :: "char \<Rightarrow> string \<Rightarrow> string list" where
  "split_once sep s =
     (case dropWhile (\<lambda>c. c \<noteq> sep) s of
        [] \<Rightarrow> [s]
      | _ # rest \<Rightarrow> [takeWhile (\<lambda>c. c \<noteq> sep) s, rest])"

text \<open>
  \<open>int(s)\<close>. A string that is not ASCII is first brought to ASCII: a character below 127
  stays, a white space of Unicode becomes a space, a decimal digit of Unicode becomes its
  ASCII digit, and at the first other character the string is cut and ends with \<open>?\<close>.
  Among the code points from 127 to 255 the white spaces are U+0085 and U+00A0, and none
  is a decimal digit.
\<close>

definition is_ascii :: "string \<Rightarrow> bool" where
  "is_ascii s = list_all (\<lambda>c. of_char c < (128 :: nat)) s"

fun to_ascii :: "string \<Rightarrow> string" where
  "to_ascii [] = []"
| "to_ascii (c # cs) =
     (if of_char c < (127 :: nat) then c # to_ascii cs
      else if c = CHR 0x85 \<or> c = CHR 0xA0 then CHR '' '' # to_ascii cs
      else ''?'')"

text \<open>
  Then the parser of integers reads the ASCII string: the white space around it is
  skipped (tab, line feed, vertical tab, form feed, carriage return and space; not the
  separators \<open>0x1C\<close> to \<open>0x1F\<close>), one sign is allowed, and the rest is a non-empty run of
  decimal digits in which single underscores may separate digits. Anything else raises
  \<open>ValueError\<close>, here \<open>None\<close>. (The interpreter's limit on the number of digits is outside
  the model.)
\<close>

definition is_space :: "char \<Rightarrow> bool" where
  "is_space c \<longleftrightarrow> c \<in> set [CHR 0x09, CHR 0x0A, CHR 0x0B, CHR 0x0C, CHR 0x0D, CHR '' '']"

definition strip :: "string \<Rightarrow> string" where
  "strip s = rev (dropWhile is_space (rev (dropWhile is_space s)))"

definition digit_val :: "char \<Rightarrow> nat option" where
  "digit_val c = map_of (zip ''0123456789'' [0 ..< 10]) c"

text \<open>\<open>digits_val acc s\<close> reads \<open>s\<close>, which follows a digit: digits, or an underscore and a digit.\<close>

fun digits_val :: "nat \<Rightarrow> string \<Rightarrow> nat option" where
  "digits_val acc [] = Some acc"
| "digits_val acc [c] =
     (case digit_val c of None \<Rightarrow> None | Some d \<Rightarrow> Some (10 * acc + d))"
| "digits_val acc (c # c' # cs) =
     (if c = CHR ''_'' then
        (case digit_val c' of None \<Rightarrow> None | Some d \<Rightarrow> digits_val (10 * acc + d) cs)
      else
        (case digit_val c of None \<Rightarrow> None | Some d \<Rightarrow> digits_val (10 * acc + d) (c' # cs)))"

definition unsigned_val :: "string \<Rightarrow> nat option" where
  "unsigned_val s =
     (case s of
        [] \<Rightarrow> None
      | c # cs \<Rightarrow> (case digit_val c of None \<Rightarrow> None | Some d \<Rightarrow> digits_val d cs))"

definition py_int :: "string \<Rightarrow> int option" where
  "py_int s =
     (case strip (if is_ascii s then s else to_ascii s) of
        [] \<Rightarrow> None
      | c # cs \<Rightarrow>
          if c = CHR ''-'' then map_option (\<lambda>n. - int n) (unsigned_val cs)
          else if c = CHR ''+'' then map_option int (unsigned_val cs)
          else map_option int (unsigned_val (c # cs)))"

subsection \<open>Time.from\_string and Course.get\_time\<close>

definition from_string :: "string \<Rightarrow> error + Time" where
  "from_string v =
     (case split_chr CHR '':'' v of
        [hour_str, minute_str] \<Rightarrow>
          (case py_int hour_str of
             None \<Rightarrow> Inl ValueError
           | Some h \<Rightarrow>
               (case py_int minute_str of
                  None \<Rightarrow> Inl ValueError
                | Some m \<Rightarrow> Inr \<lparr>hour = h, minute = m\<rparr>))
      | _ \<Rightarrow> Inl ValueError)"

definition get_time :: "Course \<Rightarrow> error + ClassTime" where
  "get_time self =
     (case split_once CHR '':'' (time self) of
        [day_part, hours_part] \<Rightarrow>
          if day_part \<notin> set DAYS_OF_WEEK then Inl ValueError
          else
            (case split_chr CHR ''-'' hours_part of
               [start_time_str, end_time_str] \<Rightarrow>
                 (case from_string start_time_str of
                    Inl e \<Rightarrow> Inl e
                  | Inr st \<Rightarrow>
                      (case from_string end_time_str of
                         Inl e \<Rightarrow> Inl e
                       | Inr en \<Rightarrow> Inr \<lparr>day = day_part, start_time = st, end_time = en\<rparr>))
             | _ \<Rightarrow> Inl ValueError)
      | _ \<Rightarrow> Inl ValueError)"

section \<open>The presentation builder (visualize.py, Python part)\<close>

record CourseDto =
  id' :: string
  subject_code :: string
  subject_name :: string
  subject_credits :: int
  course_code :: string
  day :: string
  start_min :: int
  end_min :: int
  time_str :: string

subsection \<open>Formatting integers: \<open>str(n)\<close> and the format \<open>:02\<close>\<close>

definition digit_char :: "nat \<Rightarrow> char" where
  "digit_char d = ''0123456789'' ! d"

fun str_nat :: "nat \<Rightarrow> string" where
  "str_nat n = (if n < 10 then [digit_char n] else str_nat (n div 10) @ [digit_char (n mod 10)])"

declare str_nat.simps [simp del]

definition fmt02 :: "int \<Rightarrow> string" where
  "fmt02 i =
     (if i < 0 then CHR ''-'' # str_nat (nat (- i))
      else replicate (2 - length (str_nat (nat i))) CHR ''0'' @ str_nat (nat i))"

definition Time_str :: "Time \<Rightarrow> string" where
  "Time_str t = fmt02 (hour t) @ '':'' @ fmt02 (minute t)"

definition ClassTime_str :: "ClassTime \<Rightarrow> string" where
  "ClassTime_str ct =
     ClassTime.day ct @ '':'' @ Time_str (start_time ct) @ ''-'' @ Time_str (end_time ct)"

subsection \<open>Flattening the timetable\<close>

definition course_to_dto :: "Subject \<Rightarrow> Course \<Rightarrow> nat \<Rightarrow> error + CourseDto" where
  "course_to_dto subject course index =
     (case get_time course of
        Inl e \<Rightarrow> Inl e
      | Inr ct \<Rightarrow>
          Inr \<lparr>id' = Subject.code subject @ ''__'' @ Course.code course @ ''__'' @ str_nat index,
               subject_code = Subject.code subject,
               subject_name = name subject,
               subject_credits = credits subject,
               course_code = Course.code course,
               day = ClassTime.day ct,
               start_min = to_minutes (start_time ct),
               end_min = to_minutes (end_time ct),
               time_str = ClassTime_str ct\<rparr>)"

text \<open>The inner loop of \<open>_build_payload\<close>: \<open>for idx, course in enumerate(subject.courses)\<close>.\<close>

fun append_courses :: "Subject \<Rightarrow> (nat \<times> Course) list \<Rightarrow> CourseDto list \<Rightarrow> error + CourseDto list" where
  "append_courses subject [] acc = Inr acc"
| "append_courses subject ((idx, course) # rest) acc =
     (case course_to_dto subject course idx of
        Inl e \<Rightarrow> Inl e
      | Inr d \<Rightarrow> append_courses subject rest (acc @ [d]))"

text \<open>The outer loop: \<open>for subject in timetable.subjects\<close>.\<close>

fun append_subjects :: "Subject list \<Rightarrow> CourseDto list \<Rightarrow> error + CourseDto list" where
  "append_subjects [] acc = Inr acc"
| "append_subjects (subject # rest) acc =
     (case append_courses subject (enumerate 0 (courses subject)) acc of
        Inl e \<Rightarrow> Inl e
      | Inr acc' \<Rightarrow> append_subjects rest acc')"

subsection \<open>The sort of the flattened list\<close>

text \<open>\<open>xs.index(v)\<close> raises \<open>ValueError\<close> when \<open>v\<close> is not in the list.\<close>

fun index_of :: "'a list \<Rightarrow> 'a \<Rightarrow> error + nat" where
  "index_of [] v = Inl ValueError"
| "index_of (x # xs) v =
     (if x = v then Inr 0
      else (case index_of xs v of Inl e \<Rightarrow> Inl e | Inr i \<Rightarrow> Inr (Suc i)))"

type_synonym sort_key = "nat \<times> int \<times> int \<times> string \<times> string"

definition key_of :: "CourseDto \<Rightarrow> error + sort_key" where
  "key_of c =
     (case index_of DAYS_OF_WEEK (day c) of
        Inl e \<Rightarrow> Inl e
      | Inr i \<Rightarrow> Inr (i, start_min c, end_min c, subject_code c, course_code c))"

fun keys_of :: "CourseDto list \<Rightarrow> error + sort_key list" where
  "keys_of [] = Inr []"
| "keys_of (c # cs) =
     (case key_of c of
        Inl e \<Rightarrow> Inl e
      | Inr k \<Rightarrow> (case keys_of cs of Inl e \<Rightarrow> Inl e | Inr ks \<Rightarrow> Inr (k # ks)))"

text \<open>
  \<open>courses.sort(key=...)\<close>: the keys are computed first, one per element, and the list is
  then sorted by them, stably. Tuples compare lexicographically, and so do strings.
\<close>

definition sort_courses :: "CourseDto list \<Rightarrow> error + CourseDto list" where
  "sort_courses cs =
     (case keys_of cs of
        Inl e \<Rightarrow> Inl e
      | Inr ks \<Rightarrow> Inr (map snd (sort_key fst (zip ks cs))))"

subsection \<open>The display window\<close>

fun compute_time_bounds :: "CourseDto list \<Rightarrow> int \<times> int" where
  "compute_time_bounds [] = (8 * 60, 20 * 60)"
| "compute_time_bounds (c # cs) =
     (let min_start = fold (\<lambda>c m. min m (start_min c)) cs (start_min c);
          max_end = fold (\<lambda>c m. max m (end_min c)) cs (end_min c);
          min_start = (min_start div 60) * 60;
          max_end = ((max_end + 59) div 60) * 60;
          min_start = max (6 * 60) min_start;
          max_end = min (22 * 60) max_end;
          max_end = (if max_end \<le> min_start then min_start + 60 else max_end)
      in (min_start, max_end))"

subsection \<open>The payload\<close>

record payload =
  startMinP :: int
  endMinP :: int
  coursesP :: "CourseDto list"

definition build_payload :: "Timetable \<Rightarrow> error + payload" where
  "build_payload timetable =
     (case append_subjects (subjects timetable) [] of
        Inl e \<Rightarrow> Inl e
      | Inr cs \<Rightarrow>
          (case sort_courses cs of
             Inl e \<Rightarrow> Inl e
           | Inr sorted_cs \<Rightarrow>
               (case compute_time_bounds sorted_cs of
                  (start_min', end_min') \<Rightarrow>
                    Inr \<lparr>startMinP = start_min', endMinP = end_min', coursesP = sorted_cs\<rparr>)))"

section \<open>The page script (visualize.py, the embedded JavaScript)\<close>

text \<open>
  The script reads the payload as \<open>DATA\<close>: \<open>START_MIN\<close>, \<open>END_MIN\<close> and \<open>courses\<close> are the
  fields \<open>startMinP\<close>, \<open>endMinP\<close> and \<open>coursesP\<close>, and \<open>DAYS\<close> is \<open>DAYS_OF_WEEK\<close>. The minute
  fields are integers; the pixel arithmetic of the script is done in binary64.
\<close>

abbreviation startMin :: "CourseDto \<Rightarrow> int" where
  "startMin \<equiv> start_min"

abbreviation endMin :: "CourseDto \<Rightarrow> int" where
  "endMin \<equiv> end_min"

subsection \<open>The numbers of the script\<close>

text \<open>
  A number of the script is an IEEE 754 binary64 value: a finite value, which is a
  rational, an infinity, or NaN. The sign of a zero is not kept: nothing in the script
  observes it except a division by zero, and the script divides by constants, by the
  count of lanes, and by \<open>END_MIN - START_MIN\<close>, whose zero is the positive one.
\<close>

datatype number = Val rat | PInfinity | NInfinity | NaN

text \<open>\<open>bitlen n\<close> is the number of binary digits of \<open>n\<close>.\<close>

fun bitlen :: "nat \<Rightarrow> nat" where
  "bitlen n = (if n = 0 then 0 else Suc (bitlen (n div 2)))"

declare bitlen.simps [simp del]

definition pow2 :: "int \<Rightarrow> rat" where
  "pow2 e = (if e \<ge> 0 then 2 ^ nat e else 1 / 2 ^ nat (- e))"

text \<open>The binary exponent of \<open>x \<noteq> 0\<close>: the \<open>e\<close> with \<open>2\<^sup>e \<le> \<bar>x\<bar> < 2\<^sup>e\<^sup>+\<^sup>1\<close>.\<close>

definition exponent :: "rat \<Rightarrow> int" where
  "exponent x =
     (if 1 \<le> \<bar>x\<bar> then int (bitlen (nat \<lfloor>\<bar>x\<bar>\<rfloor>)) - 1
      else - int (bitlen (nat (\<lceil>1 / \<bar>x\<bar>\<rceil> - 1))))"

text \<open>Rounding to the nearest integer, a tie to the even one.\<close>

definition rne :: "rat \<Rightarrow> int" where
  "rne r =
     (let f = \<lfloor>r\<rfloor>; d = r - of_int f
      in if d < 1 / 2 then f else if 1 / 2 < d then f + 1 else if even f then f else f + 1)"

text \<open>
  The rounding of binary64 (to nearest, ties to even): 53 significant bits, the smallest
  exponent \<open>-1022\<close> (below it the spacing stays \<open>2\<^sup>-\<^sup>1\<^sup>0\<^sup>7\<^sup>4\<close>), and an infinity when the rounded
  value reaches \<open>2\<^sup>1\<^sup>0\<^sup>2\<^sup>4\<close>. Every arithmetic operation of the script returns the rounding
  of its exact result.
\<close>

definition round64 :: "rat \<Rightarrow> number" where
  "round64 x =
     (if x = 0 then Val 0
      else
        let e = max (exponent x) (- 1022);
            q = pow2 (e - 52);
            y = of_int (rne (x / q)) * q
        in if e < 1023 then Val y
           else if pow2 1024 \<le> \<bar>y\<bar> then (if 0 < x then PInfinity else NInfinity)
           else Val y)"

definition num_of_int :: "int \<Rightarrow> number" where
  "num_of_int i = round64 (of_int i)"

definition num_of_nat :: "nat \<Rightarrow> number" where
  "num_of_nat n = round64 (of_nat n)"

fun nneg :: "number \<Rightarrow> number" where
  "nneg (Val a) = Val (- a)"
| "nneg PInfinity = NInfinity"
| "nneg NInfinity = PInfinity"
| "nneg NaN = NaN"

fun nadd :: "number \<Rightarrow> number \<Rightarrow> number" where
  "nadd (Val a) (Val b) = round64 (a + b)"
| "nadd NaN y = NaN"
| "nadd x NaN = NaN"
| "nadd PInfinity NInfinity = NaN"
| "nadd NInfinity PInfinity = NaN"
| "nadd PInfinity y = PInfinity"
| "nadd NInfinity y = NInfinity"
| "nadd (Val a) y = y"

definition nsub :: "number \<Rightarrow> number \<Rightarrow> number" where
  "nsub x y = nadd x (nneg y)"

text \<open>An infinity times, or divided by, a finite value.\<close>

definition scale_inf :: "number \<Rightarrow> rat \<Rightarrow> number" where
  "scale_inf x b = (if b = 0 then NaN else if 0 < b then x else nneg x)"

fun nmul :: "number \<Rightarrow> number \<Rightarrow> number" where
  "nmul (Val a) (Val b) = round64 (a * b)"
| "nmul NaN y = NaN"
| "nmul x NaN = NaN"
| "nmul (Val a) y = scale_inf y a"
| "nmul x (Val b) = scale_inf x b"
| "nmul PInfinity y = y"
| "nmul NInfinity y = nneg y"

fun ndiv :: "number \<Rightarrow> number \<Rightarrow> number" where
  "ndiv (Val a) (Val b) =
     (if b = 0 then (if a = 0 then NaN else if 0 < a then PInfinity else NInfinity)
      else round64 (a / b))"
| "ndiv NaN y = NaN"
| "ndiv x NaN = NaN"
| "ndiv (Val a) y = Val 0"
| "ndiv x (Val b) = (if 0 \<le> b then x else nneg x)"
| "ndiv x y = NaN"

text \<open>The comparisons \<open><=\<close> and \<open>>=\<close>: false when an operand is NaN.\<close>

fun nle :: "number \<Rightarrow> number \<Rightarrow> bool" where
  "nle (Val a) (Val b) = (a \<le> b)"
| "nle NaN y = False"
| "nle x NaN = False"
| "nle NInfinity y = True"
| "nle x PInfinity = True"
| "nle x y = False"

definition nge :: "number \<Rightarrow> number \<Rightarrow> bool" where
  "nge x y = nle y x"

text \<open>\<open>Math.max\<close> and \<open>Math.min\<close> of two numbers: NaN when an operand is NaN.\<close>

definition nmax :: "number \<Rightarrow> number \<Rightarrow> number" where
  "nmax x y = (if x = NaN \<or> y = NaN then NaN else if nle x y then y else x)"

definition nmin :: "number \<Rightarrow> number \<Rightarrow> number" where
  "nmin x y = (if x = NaN \<or> y = NaN then NaN else if nle x y then x else y)"

subsection \<open>The canvas and the layout\<close>

definition canvas_width :: nat where
  "canvas_width = 1100"

definition canvas_height :: nat where
  "canvas_height = 720"

record layout_consts =
  pad :: number
  headerH :: number
  timeColW :: number
  dayColW :: number
  rowMinStep :: number
  blockPad :: number
  corner :: number

definition layout :: layout_consts where
  "layout = \<lparr>pad = Val 18, headerH = Val 36, timeColW = Val 70, dayColW = Val 190,
             rowMinStep = Val 30, blockPad = Val 6, corner = Val 10\<rparr>"

subsection \<open>Time-to-pixel mapping\<close>

definition minuteToY :: "payload \<Rightarrow> number \<Rightarrow> number" where
  "minuteToY D m =
     (let usableH = nsub (nsub (num_of_nat canvas_height) (nmul (pad layout) (Val 2)))
                      (headerH layout);
          total = nsub (num_of_int (endMinP D)) (num_of_int (startMinP D));
          t = ndiv (nsub m (num_of_int (startMinP D))) total
      in nadd (nadd (pad layout) (headerH layout)) (nmul t usableH))"

definition yToMinute :: "payload \<Rightarrow> number \<Rightarrow> number" where
  "yToMinute D py =
     (let usableH = nsub (nsub (num_of_nat canvas_height) (nmul (pad layout) (Val 2)))
                      (headerH layout);
          total = nsub (num_of_int (endMinP D)) (num_of_int (startMinP D));
          t = ndiv (nsub py (nadd (pad layout) (headerH layout))) usableH
      in nadd (num_of_int (startMinP D)) (nmul t total))"

subsection \<open>Lane assignment\<close>

text \<open>
  The comparator of the sort in \<open>computeDayLanes\<close>:
  \<open>a.startMin - b.startMin || a.endMin - b.endMin\<close>.
\<close>

definition laneCmp :: "CourseDto \<Rightarrow> CourseDto \<Rightarrow> int" where
  "laneCmp a b =
     (if startMin a - startMin b \<noteq> 0 then startMin a - startMin b else endMin a - endMin b)"

text \<open>\<open>Array.prototype.sort\<close> is stable: an element stays in front of its equals.\<close>

fun insertCmp :: "CourseDto \<Rightarrow> CourseDto list \<Rightarrow> CourseDto list" where
  "insertCmp a [] = [a]"
| "insertCmp a (b # bs) = (if laneCmp a b \<le> 0 then a # b # bs else b # insertCmp a bs)"

definition sortCmp :: "CourseDto list \<Rightarrow> CourseDto list" where
  "sortCmp cs = foldr insertCmp cs []"

record placed =
  course :: CourseDto
  lane :: nat
  laneCount :: nat

text \<open>The inner loop: the first lane whose last end is not after the start (\<open>-1\<close> is \<open>None\<close>).\<close>

fun findLane :: "int list \<Rightarrow> int \<Rightarrow> nat option" where
  "findLane [] s = None"
| "findLane (l # ls) s = (if s \<ge> l then Some 0 else map_option Suc (findLane ls s))"

text \<open>The outer loop, over the sorted courses; \<open>lanes\<close> holds the last \<open>endMin\<close> of each lane.\<close>

fun placeAll :: "int list \<Rightarrow> (CourseDto \<times> nat) list \<Rightarrow> CourseDto list
    \<Rightarrow> int list \<times> (CourseDto \<times> nat) list" where
  "placeAll lanes ps [] = (lanes, ps)"
| "placeAll lanes ps (c # cs) =
     (case findLane lanes (startMin c) of
        None \<Rightarrow> placeAll (lanes @ [endMin c]) (ps @ [(c, length lanes)]) cs
      | Some laneIndex \<Rightarrow> placeAll (lanes[laneIndex := endMin c]) (ps @ [(c, laneIndex)]) cs)"

definition computeDayLanes :: "CourseDto list \<Rightarrow> placed list" where
  "computeDayLanes dayCourses =
     (case placeAll [] [] (sortCmp dayCourses) of
        (lanes, ps) \<Rightarrow>
          let n = (if length lanes = 0 then 1 else length lanes)
          in map (\<lambda>(c, i). \<lparr>course = c, lane = i, laneCount = n\<rparr>) ps)"

subsection \<open>The interactive state and the drawing surfaces\<close>

record hitbox =
  hid :: string
  hx :: number
  hy :: number
  hw :: number
  hh :: number

text \<open>
  A surface is a canvas: its size and what has been drawn on it, in order. A block is
  recorded with its course, its rectangle, whether it is drawn as selected and whether
  its border is dashed.
\<close>

datatype draw_cmd =
    Grid
  | Block CourseDto number number number number bool bool

record surface =
  width :: nat
  height :: nat
  drawn :: "draw_cmd list"

record ui_state =
  visibleSubjects :: "string set"
  selectedCourseIds :: "string set"
  hitboxes :: "hitbox list"
  statusText :: string
  statusDanger :: bool
  canvas :: surface

definition setStatus :: "string \<Rightarrow> bool \<Rightarrow> ui_state \<Rightarrow> ui_state" where
  "setStatus text isDanger st = st\<lparr>statusText := text, statusDanger := isDanger\<rparr>"

subsection \<open>Drawing\<close>

text \<open>
  The script draws through the global \<open>ctx\<close>. The model passes the surface \<open>ctx\<close> points to
  as an argument: the canvas for \<open>render\<close>, the offscreen canvas for the export.
  \<open>drawGrid\<close> starts with \<open>clearRect\<close> over the whole surface.
\<close>

definition drawGrid :: "surface \<Rightarrow> surface" where
  "drawGrid s = s\<lparr>drawn := [Grid]\<rparr>"

definition laneGap :: number where
  "laneGap = Val 6"

text \<open>The body of the loop over \<open>placed\<close> in \<open>drawCourses\<close>.\<close>

definition drawBlock :: "payload \<Rightarrow> bool \<Rightarrow> number \<Rightarrow> placed \<Rightarrow> ui_state \<times> surface \<Rightarrow> ui_state \<times> surface" where
  "drawBlock D exportMode dayX p = (\<lambda>(st, s).
     let c = course p;
         yBottom = nsub (num_of_nat canvas_height) (pad layout);
         dayW = dayColW layout;
         yStart = minuteToY D (num_of_int (startMin c));
         yEnd = minuteToY D (num_of_int (endMin c));
         h = nmax (Val 16) (nsub yEnd yStart);
         usableW = nsub dayW (nmul (Val 2) (blockPad layout));
         laneW = ndiv (nsub usableW (nmul laneGap (nsub (num_of_nat (laneCount p)) (Val 1))))
                   (num_of_nat (laneCount p));
         x = nadd (nadd dayX (blockPad layout)) (nmul (num_of_nat (lane p)) (nadd laneW laneGap));
         y = nmin (nsub yBottom (Val 10)) (nadd yStart (Val 1));
         w = nmax (Val 30) laneW;
         isSelected = (id' c \<in> selectedCourseIds st);
         s' = s\<lparr>drawn := drawn s @ [Block c x y w h isSelected (\<not> isSelected \<and> \<not> exportMode)]\<rparr>
     in if \<not> exportMode
        then (st\<lparr>hitboxes := hitboxes st @ [\<lparr>hid = id' c, hx = x, hy = y, hw = w, hh = h\<rparr>]\<rparr>, s')
        else (st, s'))"

text \<open>The body of the loop over the days in \<open>drawCourses\<close>.\<close>

definition drawDay :: "payload \<Rightarrow> bool \<Rightarrow> nat \<times> string \<Rightarrow> ui_state \<times> surface \<Rightarrow> ui_state \<times> surface" where
  "drawDay D exportMode = (\<lambda>(di, d) (st, s).
     let x0 = nadd (pad layout) (timeColW layout);
         dayX = nadd x0 (nmul (num_of_nat di) (dayColW layout));
         dayCourses = filter (\<lambda>c. day c = d \<and> subject_code c \<in> visibleSubjects st) (coursesP D);
         dayCourses = (if exportMode then filter (\<lambda>c. id' c \<in> selectedCourseIds st) dayCourses
                       else dayCourses)
     in fold (drawBlock D exportMode dayX) (computeDayLanes dayCourses) (st, s))"

definition drawCourses :: "payload \<Rightarrow> bool \<Rightarrow> ui_state \<times> surface \<Rightarrow> ui_state \<times> surface" where
  "drawCourses D exportMode = (\<lambda>(st, s).
     fold (drawDay D exportMode) (enumerate 0 DAYS_OF_WEEK) (st\<lparr>hitboxes := []\<rparr>, s))"

definition render :: "payload \<Rightarrow> ui_state \<Rightarrow> ui_state" where
  "render D st =
     (case drawCourses D False (st, drawGrid (canvas st)) of
        (st', s') \<Rightarrow>
          setStatus (''Selected classes: '' @ str_nat (card (selectedCourseIds st')) @ ''.'') False
            (st'\<lparr>canvas := s'\<rparr>))"

subsection \<open>Interaction\<close>

definition toggleSelection :: "payload \<Rightarrow> string \<Rightarrow> ui_state \<Rightarrow> ui_state" where
  "toggleSelection D i st =
     (case find (\<lambda>c. id' c = i) (coursesP D) of
        None \<Rightarrow> st
      | Some c \<Rightarrow>
          if i \<in> selectedCourseIds st
          then render D (st\<lparr>selectedCourseIds := selectedCourseIds st - {i}\<rparr>)
          else render D (st\<lparr>selectedCourseIds := insert i (selectedCourseIds st)\<rparr>))"

text \<open>
  The loop of \<open>courseAtPoint\<close>, from index \<open>n - 1\<close> down to \<open>0\<close>; \<open>inside\<close> is the test
  of its body.
\<close>

definition inside :: "hitbox \<Rightarrow> number \<Rightarrow> number \<Rightarrow> bool" where
  "inside b px py \<longleftrightarrow>
     nge px (hx b) \<and> nle px (nadd (hx b) (hw b)) \<and> nge py (hy b) \<and> nle py (nadd (hy b) (hh b))"

fun scanHitboxes :: "hitbox list \<Rightarrow> nat \<Rightarrow> number \<Rightarrow> number \<Rightarrow> string option" where
  "scanHitboxes hbs 0 px py = None"
| "scanHitboxes hbs (Suc i) px py =
     (let b = hbs ! i
      in if inside b px py then Some (hid b) else scanHitboxes hbs i px py)"

definition courseAtPoint :: "ui_state \<Rightarrow> number \<Rightarrow> number \<Rightarrow> string option" where
  "courseAtPoint st px py = scanHitboxes (hitboxes st) (length (hitboxes st)) px py"

definition clearBtn_click :: "payload \<Rightarrow> ui_state \<Rightarrow> ui_state" where
  "clearBtn_click D st = render D (st\<lparr>selectedCourseIds := {}\<rparr>)"

text \<open>
  The click handler of the export button. Its result is the state afterwards and the
  offscreen canvas that is encoded and downloaded, if any.
\<close>

definition exportBtn_click :: "payload \<Rightarrow> ui_state \<Rightarrow> ui_state \<times> surface option" where
  "exportBtn_click D st =
     (if selectedCourseIds st = {} then
        (setStatus ''Nothing selected to export.'' True st, None)
      else
        let off = \<lparr>width = width (canvas st), height = height (canvas st), drawn = []\<rparr>
        in (case drawCourses D True (st, drawGrid off) of
              (st', off') \<Rightarrow> (setStatus ''Exported PNG.'' False st', Some off')))"

section \<open>Auxiliary definitions for the proofs\<close>

subsection \<open>The display window as the specification words it\<close>

text \<open>
  The specification floors the earliest start and ceils the latest end to the hour,
  clamps both into 06:00--22:00, and forces a window of 60 minutes when the end is not
  after the start. \<open>spec_window\<close> follows these words; \<open>compute_time_bounds\<close> is the code.
\<close>

definition clamp :: "int \<Rightarrow> int \<Rightarrow> int \<Rightarrow> int" where
  "clamp lo hi v = max lo (min hi v)"

definition floor_hour :: "int \<Rightarrow> int" where
  "floor_hour m = (m div 60) * 60"

definition ceil_hour :: "int \<Rightarrow> int" where
  "ceil_hour m = ((m + 59) div 60) * 60"

definition spec_window :: "CourseDto list \<Rightarrow> int \<times> int" where
  "spec_window cs =
     (if cs = [] then (8 * 60, 20 * 60)
      else
        let s = clamp (6 * 60) (22 * 60) (floor_hour (Min (start_min ` set cs)));
            e = clamp (6 * 60) (22 * 60) (ceil_hour (Max (end_min ` set cs)))
        in (s, if e \<le> s then s + 60 else e))"

subsection \<open>The sort order as the specification words it\<close>

text \<open>The ordinal of a day code in \<open>DAYS_OF_WEEK\<close> (5 for a code that is not a day).\<close>

definition ordinal :: "string \<Rightarrow> nat" where
  "ordinal d = (case index_of DAYS_OF_WEEK d of Inl _ \<Rightarrow> length DAYS_OF_WEEK | Inr i \<Rightarrow> i)"

definition total_key :: "CourseDto \<Rightarrow> sort_key" where
  "total_key c = (ordinal (day c), start_min c, end_min c, subject_code c, course_code c)"

text \<open>
  \<open>spec_order a b\<close>: \<open>a\<close> may stand before \<open>b\<close>. Day ordinal first, then start minute, then
  end minute, then subject code, then session code; strings compare lexicographically.
\<close>

definition spec_order :: "CourseDto \<Rightarrow> CourseDto \<Rightarrow> bool" where
  "spec_order a b \<longleftrightarrow>
     ordinal (day a) < ordinal (day b)
     \<or> (ordinal (day a) = ordinal (day b)
        \<and> (start_min a < start_min b
           \<or> (start_min a = start_min b
              \<and> (end_min a < end_min b
                 \<or> (end_min a = end_min b
                    \<and> (subject_code a < subject_code b
                       \<or> (subject_code a = subject_code b
                          \<and> course_code a \<le> course_code b)))))))"

subsection \<open>The time strings that \<open>get_time\<close> reads\<close>

text \<open>
  \<open>reads_as s ct\<close>: the string \<open>s\<close> is a day code of \<open>DAYS_OF_WEEK\<close>, a colon, and two times
  separated by a hyphen, each time two pieces separated by a colon; no piece holds a colon
  or a hyphen, and \<open>int\<close> reads the four pieces as the hours and minutes of \<open>ct\<close>.
\<close>

definition reads_as :: "string \<Rightarrow> ClassTime \<Rightarrow> bool" where
  "reads_as s ct \<longleftrightarrow>
     (\<exists>a b c e.
        s = ClassTime.day ct @ '':'' @ a @ '':'' @ b @ ''-'' @ c @ '':'' @ e
        \<and> ClassTime.day ct \<in> set DAYS_OF_WEEK
        \<and> CHR '':'' \<notin> set a \<and> CHR ''-'' \<notin> set a \<and> CHR '':'' \<notin> set b \<and> CHR ''-'' \<notin> set b
        \<and> CHR '':'' \<notin> set c \<and> CHR ''-'' \<notin> set c \<and> CHR '':'' \<notin> set e \<and> CHR ''-'' \<notin> set e
        \<and> py_int a = Some (hour (start_time ct)) \<and> py_int b = Some (minute (start_time ct))
        \<and> py_int c = Some (hour (end_time ct)) \<and> py_int e = Some (minute (end_time ct)))"

subsection \<open>The ids of the flattened sessions\<close>





subsection \<open>Invariants of the lane loop\<close>

text \<open>Every lane index handed out so far is an index of \<open>lanes\<close>.\<close>

definition lanes_bounded :: "int list \<Rightarrow> (CourseDto \<times> nat) list \<Rightarrow> bool" where
  "lanes_bounded lanes ps \<longleftrightarrow> (\<forall>(q, l) \<in> set ps. l < length lanes)"

text \<open>
  A start \<open>s\<close> that is not before any start placed so far and not before the last end of
  lane \<open>l\<close> is not before the end of any course of lane \<open>l\<close>.
\<close>

definition lanes_cover :: "int list \<Rightarrow> (CourseDto \<times> nat) list \<Rightarrow> bool" where
  "lanes_cover lanes ps \<longleftrightarrow>
     (\<forall>s. (\<forall>(q, l) \<in> set ps. startMin q \<le> s) \<longrightarrow>
          (\<forall>l < length lanes. lanes ! l \<le> s \<longrightarrow>
             (\<forall>(q, l') \<in> set ps. l' = l \<longrightarrow> endMin q \<le> s)))"

text \<open>Of two courses in one lane, the later placed starts when the earlier has ended.\<close>

definition lane_disjoint :: "(CourseDto \<times> nat) list \<Rightarrow> bool" where
  "lane_disjoint ps \<longleftrightarrow>
     (\<forall>i j. i < j \<and> j < length ps \<and> snd (ps ! i) = snd (ps ! j)
            \<longrightarrow> endMin (fst (ps ! i)) \<le> startMin (fst (ps ! j)))"

subsection \<open>Example data\<close>

definition mk_dto :: "string \<Rightarrow> string \<Rightarrow> string \<Rightarrow> string \<Rightarrow> int \<Rightarrow> int \<Rightarrow> CourseDto" where
  "mk_dto i sc cc d s e =
     \<lparr>id' = i, subject_code = sc, subject_name = sc, subject_credits = 0, course_code = cc,
      day = d, start_min = s, end_min = e, time_str = []\<rparr>"

text \<open>Three sessions on one day: 10:00--11:00, 10:30--11:30 and 11:00--12:00.\<close>

definition ex_day :: "CourseDto list" where
  "ex_day =
     [mk_dto ''A__1__0'' ''A'' ''1'' ''CS'' 600 660,
      mk_dto ''B__1__0'' ''B'' ''1'' ''CS'' 630 690,
      mk_dto ''A__2__1'' ''A'' ''2'' ''CS'' 660 720]"

text \<open>The payload of these three sessions; its window is 10:00--12:00.\<close>

definition ex_payload :: payload where
  "ex_payload = \<lparr>startMinP = 600, endMinP = 720, coursesP = ex_day\<rparr>"

text \<open>A window from 06:00 to 15:00.\<close>

definition ex_window :: payload where
  "ex_window = \<lparr>startMinP = 360, endMinP = 900, coursesP = []\<rparr>"

text \<open>The state of the page when it is loaded, before the first \<open>render\<close>.\<close>

definition ex_init :: ui_state where
  "ex_init =
     \<lparr>visibleSubjects = {''A'', ''B''}, selectedCourseIds = {}, hitboxes = [],
      statusText = ''Ready.'', statusDanger = False,
      canvas = \<lparr>width = canvas_width, height = canvas_height, drawn = []\<rparr>\<rparr>"

text \<open>Two overlapping rectangles, drawn in the order \<open>A\<close>, \<open>B\<close>.\<close>

definition ex_boxA :: hitbox where
  "ex_boxA = \<lparr>hid = ''A__1__0'', hx = Val 100, hy = Val 100, hw = Val 80, hh = Val 60\<rparr>"

definition ex_boxB :: hitbox where
  "ex_boxB = \<lparr>hid = ''B__1__0'', hx = Val 140, hy = Val 130, hw = Val 80, hh = Val 60\<rparr>"

definition ex_two_boxes :: ui_state where
  "ex_two_boxes = ex_init\<lparr>hitboxes := [ex_boxA, ex_boxB]\<rparr>"

text \<open>The first session selected, and the page rendered with that selection.\<close>

definition ex_selected :: ui_state where
  "ex_selected = ex_init\<lparr>selectedCourseIds := {''A__1__0''}\<rparr>"

definition ex_rendered :: ui_state where
  "ex_rendered = render ex_payload ex_selected"


text \<open>A session that ends before it starts, and a well-formed one.\<close>

definition ex_reversed :: Course where
  "ex_reversed = \<lparr>Course.code = ''X'', time = ''CS:12:00-10:00''\<rparr>"

definition ex_course :: Course where
  "ex_course = \<lparr>Course.code = ''L'', time = ''CS:10:15-12:00''\<rparr>"

text \<open>A timetable of two subjects with three sessions, not in sorted order.\<close>

definition ex_timetable :: Timetable where
  "ex_timetable =
     \<lparr>subjects =
        [\<lparr>name = ''Analysis'', Subject.code = ''A'', credits = 5,
          courses = [\<lparr>Course.code = ''L'', time = ''CS:10:00-11:00''\<rparr>,
                     \<lparr>Course.code = ''L'', time = ''H:08:15-10:00''\<rparr>]\<rparr>,
         \<lparr>name = ''Physics'', Subject.code = ''B'', credits = 4,
          courses = [\<lparr>Course.code = ''P'', time = ''H:08:15-09:00''\<rparr>]\<rparr>]\<rparr>"

section \<open>Lane assignment: the sort and the loop invariant\<close>


lemma laneCmp_le: "laneCmp a b \<le> 0 \<Longrightarrow> startMin a \<le> startMin b"
  by (auto simp: laneCmp_def split: if_splits)

lemma laneCmp_gt: "\<not> laneCmp a b \<le> 0 \<Longrightarrow> startMin b \<le> startMin a"
  by (auto simp: laneCmp_def split: if_splits)

lemma set_insertCmp: "set (insertCmp a bs) = insert a (set bs)"
  by (induction bs) auto

lemma length_insertCmp: "length (insertCmp a bs) = Suc (length bs)"
  by (induction bs) auto

lemma sorted_insertCmp:
  "sorted (map startMin bs) \<Longrightarrow> sorted (map startMin (insertCmp a bs))"
  by (induction bs) (auto simp: set_insertCmp dest: laneCmp_le laneCmp_gt intro: order_trans)

lemma sorted_sortCmp: "sorted (map startMin (sortCmp cs))"
  unfolding sortCmp_def by (induction cs) (auto intro: sorted_insertCmp)

lemma set_sortCmp: "set (sortCmp cs) = set cs"
  unfolding sortCmp_def by (induction cs) (auto simp: set_insertCmp)

lemma length_sortCmp: "length (sortCmp cs) = length cs"
  unfolding sortCmp_def by (induction cs) (auto simp: length_insertCmp)

lemma findLane_Some: "findLane lanes s = Some i \<Longrightarrow> i < length lanes \<and> lanes ! i \<le> s"
  by (induction lanes arbitrary: i) (auto split: if_splits)

lemma lane_disjoint_snoc:
  assumes "lane_disjoint ps" "\<forall>(q, l') \<in> set ps. l' = l \<longrightarrow> endMin q \<le> startMin c"
  shows "lane_disjoint (ps @ [(c, l)])"
  unfolding lane_disjoint_def
proof (intro allI impI)
  fix i j
  assume h: "i < j \<and> j < length (ps @ [(c, l)]) \<and> snd ((ps @ [(c, l)]) ! i) = snd ((ps @ [(c, l)]) ! j)"
  show "endMin (fst ((ps @ [(c, l)]) ! i)) \<le> startMin (fst ((ps @ [(c, l)]) ! j))"
  proof (cases "j < length ps")
    case True
    with h assms(1) show ?thesis by (auto simp: lane_disjoint_def nth_append)
  next
    case False
    with h have j: "j = length ps" and i: "i < length ps" by auto
    from i have "ps ! i \<in> set ps" by simp
    with assms(2) h j i show ?thesis by (auto simp: nth_append split: prod.splits)
  qed
qed

lemma placeAll_inv:
  assumes "placeAll lanes ps cs = (lanes', ps')"
    and "lanes_bounded lanes ps" and "lanes_cover lanes ps" and "lane_disjoint ps"
    and "sorted (map startMin cs)"
    and "\<forall>(q, l) \<in> set ps. \<forall>c \<in> set cs. startMin q \<le> startMin c"
  shows "lanes_bounded lanes' ps' \<and> lane_disjoint ps'"
  using assms
proof (induction cs arbitrary: lanes ps)
  case Nil
  then show ?case by simp
next
  case (Cons c cs)
  have before: "\<forall>(q, l) \<in> set ps. startMin q \<le> startMin c"
    using Cons.prems(6) by auto
  show ?case
  proof (cases "findLane lanes (startMin c)")
    case None
    let ?l = "length lanes"
    have nolane: "\<forall>(q, l') \<in> set ps. l' \<noteq> ?l"
      using Cons.prems(2) by (auto simp: lanes_bounded_def)
    have b: "lanes_bounded (lanes @ [endMin c]) (ps @ [(c, ?l)])"
      using Cons.prems(2) by (auto simp: lanes_bounded_def)
    have d: "lane_disjoint (ps @ [(c, ?l)])"
      using Cons.prems(4) nolane by (intro lane_disjoint_snoc) auto
    have cv: "lanes_cover (lanes @ [endMin c]) (ps @ [(c, ?l)])"
      unfolding lanes_cover_def
    proof (intro allI impI)
      fix s l
      assume s: "\<forall>(q, l) \<in> set (ps @ [(c, ?l)]). startMin q \<le> s"
        and l: "l < length (lanes @ [endMin c])" and le: "(lanes @ [endMin c]) ! l \<le> s"
      show "\<forall>(q, l') \<in> set (ps @ [(c, ?l)]). l' = l \<longrightarrow> endMin q \<le> s"
      proof (cases "l < ?l")
        case True
        with Cons.prems(3) s le have "\<forall>(q, l') \<in> set ps. l' = l \<longrightarrow> endMin q \<le> s"
          unfolding lanes_cover_def by (auto simp: nth_append)
        with True show ?thesis by auto
      next
        case False
        with l have "l = ?l" by simp
        with le nolane show ?thesis by auto
      qed
    qed
    have rest: "\<forall>(q, l) \<in> set (ps @ [(c, ?l)]). \<forall>c' \<in> set cs. startMin q \<le> startMin c'"
      using Cons.prems(5,6) by auto
    from Cons.prems(1) None have "placeAll (lanes @ [endMin c]) (ps @ [(c, ?l)]) cs = (lanes', ps')"
      by simp
    from Cons.IH[OF this b cv d _ rest] Cons.prems(5) show ?thesis by simp
  next
    case (Some l)
    then have l: "l < length lanes" and le: "lanes ! l \<le> startMin c"
      using findLane_Some by auto
    have ends: "\<forall>(q, l') \<in> set ps. l' = l \<longrightarrow> endMin q \<le> startMin c"
      using Cons.prems(3) before l le unfolding lanes_cover_def by blast
    have b: "lanes_bounded (lanes[l := endMin c]) (ps @ [(c, l)])"
      using Cons.prems(2) l by (auto simp: lanes_bounded_def)
    have d: "lane_disjoint (ps @ [(c, l)])"
      using Cons.prems(4) ends by (rule lane_disjoint_snoc)
    have cv: "lanes_cover (lanes[l := endMin c]) (ps @ [(c, l)])"
      unfolding lanes_cover_def
    proof (intro allI impI)
      fix s k
      assume s: "\<forall>(q, l) \<in> set (ps @ [(c, l)]). startMin q \<le> s"
        and k: "k < length (lanes[l := endMin c])" and le': "(lanes[l := endMin c]) ! k \<le> s"
      from s have cs: "startMin c \<le> s" by simp
      show "\<forall>(q, l') \<in> set (ps @ [(c, l)]). l' = k \<longrightarrow> endMin q \<le> s"
      proof (cases "k = l")
        case True
        with le' l have "endMin c \<le> s" by simp
        with ends cs True show ?thesis by fastforce
      next
        case False
        with Cons.prems(3) s k le' have "\<forall>(q, l') \<in> set ps. l' = k \<longrightarrow> endMin q \<le> s"
          unfolding lanes_cover_def by auto
        with False show ?thesis by auto
      qed
    qed
    have rest: "\<forall>(q, l) \<in> set (ps @ [(c, l)]). \<forall>c' \<in> set cs. startMin q \<le> startMin c'"
      using Cons.prems(5,6) by auto
    from Cons.prems(1) Some have "placeAll (lanes[l := endMin c]) (ps @ [(c, l)]) cs = (lanes', ps')"
      by simp
    from Cons.IH[OF this b cv d _ rest] Cons.prems(5) show ?thesis by simp
  qed
qed

lemma placeAll_length: "placeAll lanes ps cs = (lanes', ps') \<Longrightarrow> map fst ps' = map fst ps @ cs"
  by (induction cs arbitrary: lanes ps) (auto split: option.splits)

lemma placeAll_sorted:
  assumes "placeAll [] [] (sortCmp cs) = (lanes', ps')"
  shows "lanes_bounded lanes' ps' \<and> lane_disjoint ps'"
  using placeAll_inv[OF assms] sorted_sortCmp[of cs]
  by (simp add: lanes_bounded_def lanes_cover_def lane_disjoint_def)

lemma mset_insertCmp: "mset (insertCmp a bs) = add_mset a (mset bs)"
  by (induction bs) simp_all

lemma mset_sortCmp: "mset (sortCmp cs) = mset cs"
  unfolding sortCmp_def by (induction cs) (simp_all add: mset_insertCmp)

lemma computeDayLanes_courses: "map course (computeDayLanes dayCourses) = sortCmp dayCourses"
proof -
  obtain lanes' ps' where p: "placeAll [] [] (sortCmp dayCourses) = (lanes', ps')"
    by (cases "placeAll [] [] (sortCmp dayCourses)")
  have "map fst ps' = sortCmp dayCourses"
    using placeAll_length [OF p] by simp
  then show ?thesis
    using p by (simp add: computeDayLanes_def Let_def comp_def case_prod_unfold)
qed

text \<open>
  Claim C1. For every list of candidate sessions of a day, the sessions that
  \<open>computeDayLanes\<close> places are exactly the candidates (the same sessions, each as often as
  it is a candidate), and no two overlapping ones share a lane: of two different entries
  of the result with the same lane index, one starts at or after the end of the other.
\<close>

theorem computeDayLanes_no_overlap:
  "mset (map course (computeDayLanes dayCourses)) = mset dayCourses
   \<and> (\<forall>i j. i < length (computeDayLanes dayCourses) \<and> j < length (computeDayLanes dayCourses)
          \<and> i \<noteq> j \<and> lane (computeDayLanes dayCourses ! i) = lane (computeDayLanes dayCourses ! j)
        \<longrightarrow> startMin (course (computeDayLanes dayCourses ! i))
              \<ge> endMin (course (computeDayLanes dayCourses ! j))
          \<or> startMin (course (computeDayLanes dayCourses ! j))
              \<ge> endMin (course (computeDayLanes dayCourses ! i)))"
proof (intro conjI allI impI)
  show "mset (map course (computeDayLanes dayCourses)) = mset dayCourses"
    by (simp add: computeDayLanes_courses mset_sortCmp)
next
  fix i j
  assume h: "i < length (computeDayLanes dayCourses) \<and> j < length (computeDayLanes dayCourses)
          \<and> i \<noteq> j \<and> lane (computeDayLanes dayCourses ! i) = lane (computeDayLanes dayCourses ! j)"
  obtain lanes' ps' where p: "placeAll [] [] (sortCmp dayCourses) = (lanes', ps')"
    by (cases "placeAll [] [] (sortCmp dayCourses)")
  then have d: "lane_disjoint ps'" using placeAll_sorted by blast
  have len: "length (computeDayLanes dayCourses) = length ps'"
    using p by (simp add: computeDayLanes_def)
  have nth: "\<And>k. k < length ps' \<Longrightarrow> course (computeDayLanes dayCourses ! k) = fst (ps' ! k) \<and> lane (computeDayLanes dayCourses ! k) = snd (ps' ! k)"
    using p by (simp add: computeDayLanes_def Let_def split: prod.splits)
  from h consider "i < j" | "j < i" by linarith
  then show "startMin (course (computeDayLanes dayCourses ! i))
              \<ge> endMin (course (computeDayLanes dayCourses ! j))
          \<or> startMin (course (computeDayLanes dayCourses ! j))
              \<ge> endMin (course (computeDayLanes dayCourses ! i))"
  proof cases
    case 1
    with d h len nth show ?thesis unfolding lane_disjoint_def by metis
  next
    case 2
    with d h len nth show ?thesis unfolding lane_disjoint_def by metis
  qed
qed

text \<open>
  The three sessions of \<open>ex_day\<close> come back as they are, in the lanes 0, 1, 0: the first and
  the third share lane 0, and the third starts when the first ends.
\<close>

theorem computeDayLanes_no_overlap_witness:
  "map course (computeDayLanes ex_day) = ex_day
   \<and> map lane (computeDayLanes ex_day) = [0, 1, 0]
   \<and> (startMin (course (computeDayLanes ex_day ! 0)) \<ge> endMin (course (computeDayLanes ex_day ! 2))
      \<or> startMin (course (computeDayLanes ex_day ! 2)) \<ge> endMin (course (computeDayLanes ex_day ! 0)))"
proof -
  have c: "map course (computeDayLanes ex_day) = ex_day"
    by (simp add: computeDayLanes_def ex_day_def mk_dto_def sortCmp_def laneCmp_def)
  have l: "map lane (computeDayLanes ex_day) = [0, 1, 0]"
    by (simp add: computeDayLanes_def ex_day_def mk_dto_def sortCmp_def laneCmp_def)
  have n: "length (computeDayLanes ex_day) = 3"
    using l by (metis length_map length_Cons list.size(3) numeral_3_eq_3)
  have h4: "lane (computeDayLanes ex_day ! 0) = lane (computeDayLanes ex_day ! 2)"
    by (simp add: computeDayLanes_def ex_day_def mk_dto_def sortCmp_def laneCmp_def)
  have h: "0 < length (computeDayLanes ex_day) \<and> 2 < length (computeDayLanes ex_day)
          \<and> (0::nat) \<noteq> 2 \<and> lane (computeDayLanes ex_day ! 0) = lane (computeDayLanes ex_day ! 2)"
    using n h4 by simp
  have "startMin (course (computeDayLanes ex_day ! 0)) \<ge> endMin (course (computeDayLanes ex_day ! 2))
      \<or> startMin (course (computeDayLanes ex_day ! 2)) \<ge> endMin (course (computeDayLanes ex_day ! 0))"
    using computeDayLanes_no_overlap [of ex_day] h by blast
  with c l show ?thesis by blast
qed

text \<open>
  Claim C10. For every list of day courses, the empty one included, the lane count that
  \<open>computeDayLanes\<close> returns is at least 1 and every placed course has a lane index below
  it, so the lane width of \<open>drawCourses\<close> never divides by zero.
\<close>

theorem computeDayLanes_lane_bounds:
  "(\<forall>p \<in> set (computeDayLanes dayCourses).
       1 \<le> laneCount p \<and> lane p < laneCount p \<and> (of_nat (laneCount p) :: rat) \<noteq> 0)
   \<and> length (computeDayLanes dayCourses) = length dayCourses
   \<and> computeDayLanes [] = []"
proof -
  obtain lanes' ps' where p: "placeAll [] [] (sortCmp dayCourses) = (lanes', ps')"
    by (cases "placeAll [] [] (sortCmp dayCourses)")
  then have d: "lanes_bounded lanes' ps'" using placeAll_sorted by blast
  have "length ps' = length dayCourses"
    using placeAll_length [OF p] length_sortCmp [of dayCourses] by (metis append_Nil length_map list.map(1))
  then show ?thesis using p d
    by (auto simp: computeDayLanes_def Let_def lanes_bounded_def sortCmp_def)
qed

theorem computeDayLanes_lane_bounds_witness:
  "1 \<le> laneCount (computeDayLanes ex_day ! 1)
   \<and> lane (computeDayLanes ex_day ! 1) < laneCount (computeDayLanes ex_day ! 1)
   \<and> lane (computeDayLanes ex_day ! 1) = 1
   \<and> length (computeDayLanes ex_day) = 3"
proof -
  have l: "length (computeDayLanes ex_day) = 3"
    by (simp add: computeDayLanes_def ex_day_def mk_dto_def sortCmp_def laneCmp_def)
  have e: "lane (computeDayLanes ex_day ! 1) = 1"
    by (simp add: computeDayLanes_def ex_day_def mk_dto_def sortCmp_def laneCmp_def)
  have m: "computeDayLanes ex_day ! 1 \<in> set (computeDayLanes ex_day)"
    using l by (intro nth_mem) simp
  from computeDayLanes_lane_bounds [of ex_day] m e l show ?thesis by blast
qed

section \<open>The display window\<close>

lemma Min_insert_min:
  fixes a b :: int
  assumes "finite S"
  shows "Min (insert (min a b) S) = Min (insert a (insert b S))"
proof (cases "S = {}")
  case True
  then show ?thesis by simp
next
  case False
  have 1: "Min (insert (min a b) S) = min (min a b) (Min S)"
    using assms False by (rule Min.insert)
  have 2: "Min (insert b S) = min b (Min S)"
    using assms False by (rule Min.insert)
  have 3: "Min (insert a (insert b S)) = min a (Min (insert b S))"
    by (rule Min.insert) (use assms in simp_all)
  show ?thesis unfolding 1 3 2 by (rule min.assoc)
qed

lemma Max_insert_max:
  fixes a b :: int
  assumes "finite S"
  shows "Max (insert (max a b) S) = Max (insert a (insert b S))"
proof (cases "S = {}")
  case True
  then show ?thesis by simp
next
  case False
  have 1: "Max (insert (max a b) S) = max (max a b) (Max S)"
    using assms False by (rule Max.insert)
  have 2: "Max (insert b S) = max b (Max S)"
    using assms False by (rule Max.insert)
  have 3: "Max (insert a (insert b S)) = max a (Max (insert b S))"
    by (rule Max.insert) (use assms in simp_all)
  show ?thesis unfolding 1 3 2 by (rule max.assoc)
qed

lemma fold_min_start:
  "fold (\<lambda>c m. min m (start_min c)) cs a = Min (insert a (start_min ` set cs))"
proof (induction cs arbitrary: a)
  case Nil
  show ?case by simp
next
  case (Cons c cs)
  have "fold (\<lambda>c m. min m (start_min c)) (c # cs) a
      = Min (insert (min a (start_min c)) (start_min ` set cs))"
    using Cons [of "min a (start_min c)"] by simp
  also have "\<dots> = Min (insert a (insert (start_min c) (start_min ` set cs)))"
    by (rule Min_insert_min) simp
  finally show ?case by simp
qed

lemma fold_max_end:
  "fold (\<lambda>c m. max m (end_min c)) cs a = Max (insert a (end_min ` set cs))"
proof (induction cs arbitrary: a)
  case Nil
  show ?case by simp
next
  case (Cons c cs)
  have "fold (\<lambda>c m. max m (end_min c)) (c # cs) a
      = Max (insert (max a (end_min c)) (end_min ` set cs))"
    using Cons [of "max a (end_min c)"] by simp
  also have "\<dots> = Max (insert a (insert (end_min c) (end_min ` set cs)))"
    by (rule Max_insert_max) simp
  finally show ?case by simp
qed

lemma ceil_hour_eq: "((m + 59) div 60) * 60 = ceil_hour m"
  by (simp add: ceil_hour_def)

lemma compute_time_bounds_Cons:
  "compute_time_bounds (c # cs) =
     (let s = max 360 (floor_hour (Min (start_min ` set (c # cs))));
          e = min 1320 (ceil_hour (Max (end_min ` set (c # cs))))
      in (s, if e \<le> s then s + 60 else e))"
proof -
  have m: "fold (\<lambda>c m. min m (start_min c)) cs (start_min c) = Min (start_min ` set (c # cs))"
    unfolding fold_min_start by simp
  have n: "fold (\<lambda>c m. max m (end_min c)) cs (end_min c) = Max (end_min ` set (c # cs))"
    unfolding fold_max_end by simp
  show ?thesis
    unfolding compute_time_bounds.simps m n ceil_hour_eq Let_def floor_hour_def by simp
qed

lemma window_agree:
  fixes f c :: int
  assumes "f \<le> 1320"
  shows "(let s = max 360 f; e = min 1320 c in (s, if e \<le> s then s + 60 else e))
       = (let s = clamp (6 * 60) (22 * 60) f; e = clamp (6 * 60) (22 * 60) c
          in (s, if e \<le> s then s + 60 else e))"
  using assms by (simp add: clamp_def Let_def max_def min_def)

lemma window_pos:
  fixes f c :: int
  shows "fst (let s = max 360 f; e = min 1320 c in (s, if e \<le> s then s + 60 else e))
       < snd (let s = max 360 f; e = min 1320 c in (s, if e \<le> s then s + 60 else e))"
  by (simp add: Let_def max_def min_def)

text \<open>
  Claim C3, as amended. For the empty list the window is 08:00--20:00. Otherwise the
  earliest start is floored to its hour and raised to at least 06:00, the latest end is
  ceiled to its hour and lowered to at most 22:00, and an end that is not after the start
  is forced to the start plus 60. The window always has its end after its start, its
  start is never before 06:00, a single session 08:10--09:05 gives 08:00--10:00, and
  whenever the floored earliest start is at most 22:00 the window is the one the
  specification words (\<open>spec_window\<close>).
\<close>

theorem compute_time_bounds_window:
  "compute_time_bounds [] = (480, 1200)
   \<and> (cs \<noteq> [] \<longrightarrow>
        compute_time_bounds cs =
          (let s = max 360 (floor_hour (Min (start_min ` set cs)));
               e = min 1320 (ceil_hour (Max (end_min ` set cs)))
           in (s, if e \<le> s then s + 60 else e)))
   \<and> (cs \<noteq> [] \<and> floor_hour (Min (start_min ` set cs)) \<le> 1320 \<longrightarrow>
        compute_time_bounds cs = spec_window cs)
   \<and> fst (compute_time_bounds cs) < snd (compute_time_bounds cs)
   \<and> 360 \<le> fst (compute_time_bounds cs)
   \<and> compute_time_bounds [mk_dto ''A__1__0'' ''A'' ''1'' ''H'' 490 545] = (480, 600)"
proof (cases cs)
  case Nil
  then show ?thesis by (simp add: mk_dto_def)
next
  case (Cons c cs')
  have a: "compute_time_bounds cs =
          (let s = max 360 (floor_hour (Min (start_min ` set cs)));
               e = min 1320 (ceil_hour (Max (end_min ` set cs)))
           in (s, if e \<le> s then s + 60 else e))"
    unfolding Cons by (rule compute_time_bounds_Cons)
  have s: "spec_window cs =
          (let s = clamp (6 * 60) (22 * 60) (floor_hour (Min (start_min ` set cs)));
               e = clamp (6 * 60) (22 * 60) (ceil_hour (Max (end_min ` set cs)))
           in (s, if e \<le> s then s + 60 else e))"
    unfolding spec_window_def using Cons by simp
  have b: "floor_hour (Min (start_min ` set cs)) \<le> 1320 \<Longrightarrow> compute_time_bounds cs = spec_window cs"
    unfolding a s by (rule window_agree)
  have c: "fst (compute_time_bounds cs) < snd (compute_time_bounds cs)"
    unfolding a by (rule window_pos)
  have d: "360 \<le> fst (compute_time_bounds cs)"
    unfolding a by (simp add: Let_def)
  have e: "compute_time_bounds [mk_dto ''A__1__0'' ''A'' ''1'' ''H'' 490 545] = (480, 600)"
    by (simp add: mk_dto_def)
  have z: "compute_time_bounds [] = (480, 1200)" by simp
  have a': "cs \<noteq> [] \<longrightarrow>
        compute_time_bounds cs =
          (let s = max 360 (floor_hour (Min (start_min ` set cs)));
               e = min 1320 (ceil_hour (Max (end_min ` set cs)))
           in (s, if e \<le> s then s + 60 else e))"
    using a by blast
  have b': "cs \<noteq> [] \<and> floor_hour (Min (start_min ` set cs)) \<le> 1320 \<longrightarrow>
        compute_time_bounds cs = spec_window cs"
    using b by blast
  show ?thesis
    by (rule conjI [OF z conjI [OF a' conjI [OF b' conjI [OF c conjI [OF d e]]]]])
qed

text \<open>
  The claim as stated fails for a session 23:00--23:30: clamping both ends into
  06:00--22:00 gives 22:00--23:00, the code returns 23:00--24:00.
\<close>

theorem compute_time_bounds_late_counterexample:
  "compute_time_bounds [mk_dto ''A__1__0'' ''A'' ''1'' ''H'' 1380 1410] = (1380, 1440)
   \<and> spec_window [mk_dto ''A__1__0'' ''A'' ''1'' ''H'' 1380 1410] = (1320, 1380)"
proof
  show "compute_time_bounds [mk_dto ''A__1__0'' ''A'' ''1'' ''H'' 1380 1410] = (1380, 1440)"
    by (simp add: mk_dto_def)
  show "spec_window [mk_dto ''A__1__0'' ''A'' ''1'' ''H'' 1380 1410] = (1320, 1380)"
    by (simp add: mk_dto_def spec_window_def clamp_def floor_hour_def ceil_hour_def)
qed

theorem compute_time_bounds_window_witness:
  "compute_time_bounds [mk_dto ''A__1__0'' ''A'' ''1'' ''H'' 490 545] = (480, 600)
   \<and> spec_window [mk_dto ''A__1__0'' ''A'' ''1'' ''H'' 490 545] = (480, 600)"
proof -
  let ?cs = "[mk_dto ''A__1__0'' ''A'' ''1'' ''H'' 490 545]"
  have h: "?cs \<noteq> [] \<and> floor_hour (Min (start_min ` set ?cs)) \<le> 1320"
    by (simp add: mk_dto_def floor_hour_def)
  have e: "compute_time_bounds ?cs = (480, 600)"
    using compute_time_bounds_window [of ?cs] by blast
  have eq: "compute_time_bounds ?cs = spec_window ?cs"
    using compute_time_bounds_window [of ?cs] h by blast
  from eq e have s: "spec_window ?cs = (480, 600)"
    by (rule trans [OF sym])
  show ?thesis by (rule conjI [OF e s])
qed

section \<open>Time-to-pixel mapping\<close>

subsection \<open>Evaluating the arithmetic\<close>

named_theorems num_eval

lemma floor_rat_numeral [num_eval]:
  "\<lfloor>(numeral a / numeral b :: rat)\<rfloor> = numeral a div numeral b"
  using floor_divide_of_int_eq [of "numeral a" "numeral b", where ?'a = rat] by simp

lemma floor_rat_neg_numeral [num_eval]:
  "\<lfloor>(- (numeral a / numeral b) :: rat)\<rfloor> = - numeral a div numeral b"
  using floor_divide_of_int_eq [of "- numeral a" "numeral b", where ?'a = rat] by simp

lemma bitlen_0 [num_eval]: "bitlen 0 = 0"
  by (simp add: bitlen.simps)

lemma bitlen_1 [num_eval]: "bitlen (Suc 0) = Suc 0"
  by (simp add: bitlen.simps)

lemma bitlen_numeral [num_eval]: "bitlen (numeral k) = Suc (bitlen (numeral k div 2))"
  by (subst bitlen.simps) simp

lemmas [num_eval] = round64_def exponent_def pow2_def rne_def Let_def nsub_def nge_def nmax_def
  nmin_def num_of_int_def num_of_nat_def ceiling_def

subsection \<open>The window 06:00--15:00 at minute 752\<close>

text \<open>
  With \<open>START_MIN = 360\<close> and \<open>END_MIN = 900\<close> the usable height is 648 and the length of the
  window 540; both are computed without rounding.
\<close>

lemma ex_window_usableH:
  "nsub (nsub (num_of_nat canvas_height) (nmul (pad layout) (Val 2))) (headerH layout) = Val 648"
  by (simp add: num_eval canvas_height_def layout_def)

lemma ex_window_total:
  "nsub (num_of_int (endMinP ex_window)) (num_of_int (startMinP ex_window)) = Val 540"
  by (simp add: num_eval ex_window_def)

lemma ex_window_origin: "nadd (pad layout) (headerH layout) = Val 54"
  by (simp add: num_eval layout_def)

text \<open>
  Minute 752 is mapped to \<open>524.4000000000001\<close>, and \<open>yToMinute\<close> maps that back to
  \<open>752.0000000000001\<close>, the binary64 value after 752: the round trip is not exact.
\<close>

lemma ex_window_t: "ndiv (nsub (Val 752) (num_of_int (startMinP ex_window))) (Val 540)
    = Val (0x173ac901e573ad / 2 ^ 53)"
  by (simp add: num_eval ex_window_def)

lemma ex_window_y: "nadd (Val 54) (nmul (Val (0x173ac901e573ad / 2 ^ 53)) (Val 648))
    = Val (0x10633333333334 / 2 ^ 43)"
  by (simp add: num_eval)

lemma minuteToY_752: "minuteToY ex_window (Val 752) = Val (0x10633333333334 / 2 ^ 43)"
  unfolding minuteToY_def Let_def ex_window_usableH ex_window_total ex_window_origin ex_window_t
  by (rule ex_window_y)

lemma ex_window_back_t: "ndiv (nsub (Val (0x10633333333334 / 2 ^ 43)) (Val 54)) (Val 648)
    = Val (0x173ac901e573ae / 2 ^ 53)"
  by (simp add: num_eval)

lemma ex_window_back_m: "nadd (num_of_int (startMinP ex_window))
      (nmul (Val (0x173ac901e573ae / 2 ^ 53)) (Val 540)) = Val (752 + 1 / 2 ^ 43)"
  by (simp add: num_eval ex_window_def)

lemma yToMinute_minuteToY_752:
  "yToMinute ex_window (minuteToY ex_window (Val 752)) = Val (752 + 1 / 2 ^ 43)"
  unfolding minuteToY_752 unfolding yToMinute_def Let_def ex_window_usableH ex_window_total
    ex_window_origin ex_window_back_t
  by (rule ex_window_back_m)

text \<open>
  The binary64 value after 752 is mapped to the same pixel as 752: between neighbouring
  values \<open>minuteToY\<close> is not strictly increasing.
\<close>

lemma ex_window_t_next:
  "ndiv (nsub (Val (752 + 1 / 2 ^ 43)) (num_of_int (startMinP ex_window))) (Val 540)
    = Val (0x173ac901e573ae / 2 ^ 53)"
  by (simp add: num_eval ex_window_def)

lemma ex_window_y_next: "nadd (Val 54) (nmul (Val (0x173ac901e573ae / 2 ^ 53)) (Val 648))
    = Val (0x10633333333334 / 2 ^ 43)"
  by (simp add: num_eval)

lemma minuteToY_752_next:
  "minuteToY ex_window (Val (752 + 1 / 2 ^ 43)) = minuteToY ex_window (Val 752)"
  unfolding minuteToY_752
  unfolding minuteToY_def Let_def ex_window_usableH ex_window_total ex_window_origin ex_window_t_next
  by (rule ex_window_y_next)

text \<open>A window of length zero: the division is by zero.\<close>

lemma minuteToY_empty_window:
  "minuteToY \<lparr>startMinP = 600, endMinP = 600, coursesP = []\<rparr> (Val 600) = NaN"
  by (simp add: minuteToY_def num_eval layout_def)

section \<open>Hit-testing\<close>

lemma scan_none:
  "(\<forall>j<i. \<not> inside (hbs ! j) px py) \<Longrightarrow> scanHitboxes hbs i px py = None"
  by (induction i) (auto simp: Let_def)

lemma scan_last:
  "k < i \<Longrightarrow> inside (hbs ! k) px py \<Longrightarrow> (\<forall>j. k < j \<and> j < i \<longrightarrow> \<not> inside (hbs ! j) px py)
   \<Longrightarrow> scanHitboxes hbs i px py = Some (hid (hbs ! k))"
proof (induction i)
  case 0
  then show ?case by simp
next
  case (Suc i)
  show ?case
  proof (cases "k = i")
    case True
    with Suc.prems show ?thesis by (simp add: Let_def)
  next
    case False
    with Suc.prems have "k < i" "\<not> inside (hbs ! i) px py" by auto
    with Suc show ?thesis by (simp add: Let_def)
  qed
qed

text \<open>
  Claim C7. \<open>courseAtPoint\<close> scans the hitboxes from the last drawn to the first and
  returns the id of the first one that contains the point: a point inside no hitbox gives
  none; a point inside hitbox \<open>k\<close> and inside no later one gives the id of hitbox \<open>k\<close>; and
  with two overlapping hitboxes drawn in the order \<open>A\<close>, \<open>B\<close>, a point inside both gives the
  id of \<open>B\<close>.
\<close>

theorem courseAtPoint_topmost:
  "((\<forall>k < length (hitboxes st). \<not> inside (hitboxes st ! k) px py)
      \<longrightarrow> courseAtPoint st px py = None)
   \<and> (k < length (hitboxes st) \<and> inside (hitboxes st ! k) px py
        \<and> (\<forall>j. k < j \<and> j < length (hitboxes st) \<longrightarrow> \<not> inside (hitboxes st ! j) px py)
      \<longrightarrow> courseAtPoint st px py = Some (hid (hitboxes st ! k)))
   \<and> (hitboxes st = [A, B] \<and> inside A px py \<and> inside B px py
      \<longrightarrow> courseAtPoint st px py = Some (hid B))"
proof (intro conjI impI)
  assume "\<forall>k < length (hitboxes st). \<not> inside (hitboxes st ! k) px py"
  then show "courseAtPoint st px py = None"
    unfolding courseAtPoint_def by (rule scan_none)
next
  assume "k < length (hitboxes st) \<and> inside (hitboxes st ! k) px py
        \<and> (\<forall>j. k < j \<and> j < length (hitboxes st) \<longrightarrow> \<not> inside (hitboxes st ! j) px py)"
  then show "courseAtPoint st px py = Some (hid (hitboxes st ! k))"
    unfolding courseAtPoint_def by (intro scan_last) auto
next
  assume h: "hitboxes st = [A, B] \<and> inside A px py \<and> inside B px py"
  have "scanHitboxes [A, B] (Suc (Suc 0)) px py = Some (hid ([A, B] ! Suc 0))"
    using h by (intro scan_last) auto
  then show "courseAtPoint st px py = Some (hid B)"
    unfolding courseAtPoint_def using h by simp
qed

theorem courseAtPoint_topmost_witness:
  "courseAtPoint ex_two_boxes (Val 150) (Val 140) = Some ''B__1__0''
   \<and> courseAtPoint ex_two_boxes (Val 10) (Val 10) = None"
proof -
  have b: "hitboxes ex_two_boxes = [ex_boxA, ex_boxB]"
    by (simp add: ex_two_boxes_def)
  have i: "inside ex_boxA (Val 150) (Val 140)" "inside ex_boxB (Val 150) (Val 140)"
    by (simp_all add: inside_def ex_boxA_def ex_boxB_def num_eval)
  have n: "\<forall>k < length (hitboxes ex_two_boxes).
      \<not> inside (hitboxes ex_two_boxes ! k) (Val 10) (Val 10)"
    by (simp add: b inside_def ex_boxA_def ex_boxB_def num_eval less_Suc_eq)
  have s: "courseAtPoint ex_two_boxes (Val 150) (Val 140) = Some (hid ex_boxB)"
    using courseAtPoint_topmost [of ex_two_boxes "Val 150" "Val 140" 0 ex_boxA ex_boxB] b i
    by blast
  have t: "courseAtPoint ex_two_boxes (Val 10) (Val 10) = None"
    using courseAtPoint_topmost [of ex_two_boxes "Val 10" "Val 10" 0 ex_boxA ex_boxB] n by blast
  from s t show ?thesis by (simp add: ex_boxB_def)
qed

section \<open>Export\<close>

subsection \<open>Drawing in export mode\<close>

lemma drawBlock_export_state: "fst (drawBlock D True dayX p (st, s)) = st"
  by (simp add: drawBlock_def Let_def)

lemma drawBlock_size:
  "width (snd (drawBlock D e dayX p (st, s))) = width s \<and> height (snd (drawBlock D e dayX p (st, s))) = height s"
  by (simp add: drawBlock_def Let_def)

lemma fold_drawBlock_export:
  "fst (fold (drawBlock D True dayX) ps (st, s)) = st
   \<and> width (snd (fold (drawBlock D True dayX) ps (st, s))) = width s
   \<and> height (snd (fold (drawBlock D True dayX) ps (st, s))) = height s"
proof (induction ps arbitrary: s)
  case Nil
  show ?case by simp
next
  case (Cons p ps)
  obtain s' where d: "drawBlock D True dayX p (st, s) = (st, s')"
    using drawBlock_export_state [of D dayX p st s] by (cases "drawBlock D True dayX p (st, s)") simp
  have w: "width s' = width s \<and> height s' = height s"
    using drawBlock_size [of D True dayX p st s] d by simp
  show ?case using Cons [of s'] d w by simp
qed

lemma drawDay_export:
  "fst (drawDay D True x (st, s)) = st
   \<and> width (snd (drawDay D True x (st, s))) = width s
   \<and> height (snd (drawDay D True x (st, s))) = height s"
  by (cases x) (simp add: drawDay_def Let_def fold_drawBlock_export)

lemma fold_drawDay_export:
  "fst (fold (drawDay D True) xs (st, s)) = st
   \<and> width (snd (fold (drawDay D True) xs (st, s))) = width s
   \<and> height (snd (fold (drawDay D True) xs (st, s))) = height s"
proof (induction xs arbitrary: s)
  case Nil
  show ?case by simp
next
  case (Cons x xs)
  obtain s' where d: "drawDay D True x (st, s) = (st, s')"
    using drawDay_export [of D x st s] by (cases "drawDay D True x (st, s)") simp
  have w: "width s' = width s \<and> height s' = height s"
    using drawDay_export [of D x st s] d by simp
  show ?case using Cons [of s'] d w by simp
qed

lemma drawCourses_export:
  "fst (drawCourses D True (st, s)) = st\<lparr>hitboxes := []\<rparr>
   \<and> width (snd (drawCourses D True (st, s))) = width s
   \<and> height (snd (drawCourses D True (st, s))) = height s"
  by (simp add: drawCourses_def fold_drawDay_export)

lemma exportBtn_click_nonempty:
  assumes "selectedCourseIds st \<noteq> {}"
  shows "exportBtn_click D st =
     (setStatus ''Exported PNG.'' False (st\<lparr>hitboxes := []\<rparr>),
      Some (snd (drawCourses D True
        (st, drawGrid \<lparr>width = width (canvas st), height = height (canvas st), drawn = []\<rparr>))))"
proof -
  let ?off = "drawGrid \<lparr>width = width (canvas st), height = height (canvas st), drawn = []\<rparr>"
  obtain st' off' where d: "drawCourses D True (st, ?off) = (st', off')"
    by (cases "drawCourses D True (st, ?off)")
  have "st' = st\<lparr>hitboxes := []\<rparr>"
    using drawCourses_export [of D st ?off] d by simp
  with assms d show ?thesis
    by (simp add: exportBtn_click_def Let_def)
qed

lemma ex_rendered_eval:
  "map hid (hitboxes ex_rendered) = [''A__1__0'', ''B__1__0'', ''A__2__1'']
   \<and> selectedCourseIds ex_rendered = {''A__1__0''}
   \<and> width (canvas ex_rendered) = 1100 \<and> height (canvas ex_rendered) = 720"
  by (simp add: ex_rendered_def render_def drawCourses_def drawDay_def drawBlock_def drawGrid_def
      ex_selected_def ex_init_def ex_payload_def DAYS_OF_WEEK_def Let_def setStatus_def
      computeDayLanes_def ex_day_def mk_dto_def sortCmp_def laneCmp_def enumerate_eq_zip
      canvas_width_def canvas_height_def split: prod.splits)

text \<open>
  Claim C5. With an empty selection the export handler exports nothing: it reports
  ``Nothing selected to export.'' and leaves the visible subjects, the selection, the
  hitboxes and the canvas as they were. With a non-empty selection it draws in export mode
  on an offscreen canvas of the size of the interactive canvas, and that canvas is what is
  encoded.
\<close>

theorem exportBtn_click_export:
  "(selectedCourseIds st = {} \<longrightarrow>
      snd (exportBtn_click D st) = None
      \<and> statusText (fst (exportBtn_click D st)) = ''Nothing selected to export.''
      \<and> statusDanger (fst (exportBtn_click D st))
      \<and> visibleSubjects (fst (exportBtn_click D st)) = visibleSubjects st
      \<and> selectedCourseIds (fst (exportBtn_click D st)) = selectedCourseIds st
      \<and> hitboxes (fst (exportBtn_click D st)) = hitboxes st
      \<and> canvas (fst (exportBtn_click D st)) = canvas st)
   \<and> (selectedCourseIds st \<noteq> {} \<longrightarrow>
      (\<exists>off. snd (exportBtn_click D st) = Some off
         \<and> off = snd (drawCourses D True
             (st, drawGrid \<lparr>width = width (canvas st), height = height (canvas st), drawn = []\<rparr>))
         \<and> width off = width (canvas st) \<and> height off = height (canvas st))
      \<and> statusText (fst (exportBtn_click D st)) = ''Exported PNG.'')"
proof (intro conjI impI)
  assume e: "selectedCourseIds st = {}"
  then have x: "exportBtn_click D st = (setStatus ''Nothing selected to export.'' True st, None)"
    by (simp add: exportBtn_click_def)
  show "snd (exportBtn_click D st) = None" unfolding x by simp
  show "statusText (fst (exportBtn_click D st)) = ''Nothing selected to export.''"
    unfolding x by (simp add: setStatus_def)
  show "statusDanger (fst (exportBtn_click D st))" unfolding x by (simp add: setStatus_def)
  show "visibleSubjects (fst (exportBtn_click D st)) = visibleSubjects st"
    unfolding x by (simp add: setStatus_def)
  show "selectedCourseIds (fst (exportBtn_click D st)) = selectedCourseIds st"
    unfolding x by (simp add: setStatus_def)
  show "hitboxes (fst (exportBtn_click D st)) = hitboxes st"
    unfolding x by (simp add: setStatus_def)
  show "canvas (fst (exportBtn_click D st)) = canvas st"
    unfolding x by (simp add: setStatus_def)
next
  assume n: "selectedCourseIds st \<noteq> {}"
  let ?off = "drawGrid \<lparr>width = width (canvas st), height = height (canvas st), drawn = []\<rparr>"
  note x = exportBtn_click_nonempty [OF n, of D]
  have w: "width (snd (drawCourses D True (st, ?off))) = width (canvas st)
         \<and> height (snd (drawCourses D True (st, ?off))) = height (canvas st)"
    using drawCourses_export [of D st ?off] by (simp add: drawGrid_def)
  show "\<exists>off. snd (exportBtn_click D st) = Some off
         \<and> off = snd (drawCourses D True (st, ?off))
         \<and> width off = width (canvas st) \<and> height off = height (canvas st)"
    unfolding x using w by simp
  show "statusText (fst (exportBtn_click D st)) = ''Exported PNG.''"
    unfolding x by (simp add: setStatus_def)
qed

theorem exportBtn_click_export_witness:
  "snd (exportBtn_click ex_payload ex_init) = None
   \<and> statusText (fst (exportBtn_click ex_payload ex_init)) = ''Nothing selected to export.''
   \<and> selectedCourseIds (fst (exportBtn_click ex_payload ex_init)) = {}
   \<and> map_option width (snd (exportBtn_click ex_payload ex_rendered)) = Some 1100
   \<and> map_option height (snd (exportBtn_click ex_payload ex_rendered)) = Some 720
   \<and> statusText (fst (exportBtn_click ex_payload ex_rendered)) = ''Exported PNG.''"
proof -
  have e: "selectedCourseIds ex_init = {}"
    by (simp add: ex_init_def)
  have n: "selectedCourseIds ex_rendered \<noteq> {}"
    using ex_rendered_eval by simp
  have a: "snd (exportBtn_click ex_payload ex_init) = None
      \<and> statusText (fst (exportBtn_click ex_payload ex_init)) = ''Nothing selected to export.''
      \<and> selectedCourseIds (fst (exportBtn_click ex_payload ex_init)) = {}"
    using exportBtn_click_export [of ex_init ex_payload] e by simp
  obtain off where o: "snd (exportBtn_click ex_payload ex_rendered) = Some off"
      "width off = width (canvas ex_rendered)" "height off = height (canvas ex_rendered)"
    using exportBtn_click_export [of ex_rendered ex_payload] n by blast
  have s: "statusText (fst (exportBtn_click ex_payload ex_rendered)) = ''Exported PNG.''"
    using exportBtn_click_export [of ex_rendered ex_payload] n by blast
  from a o s ex_rendered_eval show ?thesis by simp
qed

text \<open>
  Claim C4. An export leaves the visible subjects, the selection and the canvas unchanged,
  but not the hitboxes: \<open>drawCourses\<close> starts with \<open>hitboxes = []\<close> in export mode too, and
  the handler does not render again. After an export the hitboxes are empty whatever they
  were before.
\<close>

theorem exportBtn_click_resets_hitboxes:
  assumes "selectedCourseIds st \<noteq> {}"
  shows "hitboxes (fst (exportBtn_click D st)) = []
       \<and> visibleSubjects (fst (exportBtn_click D st)) = visibleSubjects st
       \<and> selectedCourseIds (fst (exportBtn_click D st)) = selectedCourseIds st
       \<and> canvas (fst (exportBtn_click D st)) = canvas st"
  unfolding exportBtn_click_nonempty [OF assms] by (simp add: setStatus_def)

theorem exportBtn_click_resets_hitboxes_witness:
  "length (hitboxes ex_rendered) = 3
   \<and> hitboxes (fst (exportBtn_click ex_payload ex_rendered)) = []"
proof -
  have l: "length (map hid (hitboxes ex_rendered)) = 3"
    using ex_rendered_eval by simp
  have n: "selectedCourseIds ex_rendered \<noteq> {}"
    using ex_rendered_eval by simp
  from exportBtn_click_resets_hitboxes [OF n, of ex_payload] l show ?thesis by simp
qed

section \<open>The sort of the flattened list\<close>

lemma index_of_mem: "v \<in> set xs \<Longrightarrow> \<exists>i. index_of xs v = Inr i"
  by (induction xs) (auto split: sum.splits)

lemma key_of_valid:
  "day c \<in> set DAYS_OF_WEEK \<Longrightarrow> key_of c = Inr (total_key c)"
  using index_of_mem [of "day c" DAYS_OF_WEEK]
  by (auto simp: key_of_def total_key_def ordinal_def)

lemma keys_of_valid:
  "\<forall>c \<in> set cs. day c \<in> set DAYS_OF_WEEK \<Longrightarrow> keys_of cs = Inr (map total_key cs)"
  by (induction cs) (simp_all add: key_of_valid)

lemma insort_key_decorated:
  "insort_key fst (f x, x) (map (\<lambda>y. (f y, y)) ys) = map (\<lambda>y. (f y, y)) (insort_key f x ys)"
  by (induction ys) simp_all

lemma sort_key_decorated:
  "sort_key fst (map (\<lambda>y. (f y, y)) xs) = map (\<lambda>y. (f y, y)) (sort_key f xs)"
  by (induction xs) (simp_all add: insort_key_decorated)

lemma decorate_sort_undecorate:
  "map snd (sort_key fst (zip (map f xs) xs)) = sort_key f xs"
proof -
  have "zip (map f xs) xs = map (\<lambda>y. (f y, y)) xs"
    by (induction xs) simp_all
  then show ?thesis
    by (simp add: sort_key_decorated comp_def)
qed

lemma sort_courses_valid:
  "\<forall>c \<in> set cs. day c \<in> set DAYS_OF_WEEK \<Longrightarrow> sort_courses cs = Inr (sort_key total_key cs)"
  by (simp add: sort_courses_def keys_of_valid decorate_sort_undecorate)

lemma total_key_le: "total_key a \<le> total_key b \<longleftrightarrow> spec_order a b"
  by (auto simp: total_key_def spec_order_def)

lemma spec_order_total: "spec_order a b \<or> spec_order b a"
  using linear [of "total_key a" "total_key b"] by (simp add: total_key_le)

lemma sorted_wrt_spec_order: "sorted_wrt spec_order (sort_key total_key cs)"
proof -
  have "sorted (map total_key (sort_key total_key cs))" by (rule sorted_sort_key)
  then show ?thesis
    by (simp add: sorted_map total_key_le [abs_def])
qed

lemma get_time_day: "get_time c = Inr ct \<Longrightarrow> ClassTime.day ct \<in> set DAYS_OF_WEEK"
  by (auto simp: get_time_def split: list.splits if_splits sum.splits)

lemma course_to_dto_day: "course_to_dto s c i = Inr d \<Longrightarrow> day d \<in> set DAYS_OF_WEEK"
  by (auto simp: course_to_dto_def split: sum.splits dest: get_time_day)

lemma append_courses_days:
  "append_courses s ics acc = Inr out \<Longrightarrow> \<forall>c \<in> set acc. day c \<in> set DAYS_OF_WEEK
   \<Longrightarrow> \<forall>c \<in> set out. day c \<in> set DAYS_OF_WEEK"
proof (induction ics arbitrary: acc)
  case Nil
  then show ?case by simp
next
  case (Cons ic ics)
  obtain i c where ic: "ic = (i, c)" by (cases ic)
  from Cons.prems(1) obtain d where d: "course_to_dto s c i = Inr d"
    and r: "append_courses s ics (acc @ [d]) = Inr out"
    unfolding ic by (auto split: sum.splits)
  have "\<forall>c \<in> set (acc @ [d]). day c \<in> set DAYS_OF_WEEK"
    using Cons.prems(2) course_to_dto_day [OF d] by simp
  from Cons.IH [OF r this] show ?case .
qed

lemma append_subjects_days:
  "append_subjects ss acc = Inr out \<Longrightarrow> \<forall>c \<in> set acc. day c \<in> set DAYS_OF_WEEK
   \<Longrightarrow> \<forall>c \<in> set out. day c \<in> set DAYS_OF_WEEK"
proof (induction ss arbitrary: acc)
  case Nil
  then show ?case by simp
next
  case (Cons s ss)
  from Cons.prems(1) obtain acc' where a: "append_courses s (enumerate 0 (courses s)) acc = Inr acc'"
    and r: "append_subjects ss acc' = Inr out"
    by (auto split: sum.splits)
  from Cons.IH [OF r append_courses_days [OF a Cons.prems(2)]] show ?case .
qed

lemma ex_flat:
  "map_sum id (map id') (append_subjects (subjects ex_timetable) []) = Inr [''A__L__0'', ''A__L__1'', ''B__P__0'']"
  by code_simp

text \<open>
  Claim C8. When the flattening succeeds, the payload is built, and its course list is
  the flattened list reordered (same sessions, as a multiset) so that every earlier
  session may stand before every later one in the order of the specification: day
  ordinal, then start minute, then end minute, then subject code, then session code.
  That order is total, and sessions with equal keys keep their order (the sort is stable),
  so the result is a function of the timetable alone.
\<close>

theorem build_payload_sorted:
  assumes "append_subjects (subjects tt) [] = Inr cs"
  shows "(\<exists>P. build_payload tt = Inr P
            \<and> mset (coursesP P) = mset cs
            \<and> sorted_wrt spec_order (coursesP P)
            \<and> (\<forall>k. filter (\<lambda>c. total_key c = k) (coursesP P) = filter (\<lambda>c. total_key c = k) cs))
       \<and> (\<forall>a b. spec_order a b \<or> spec_order b a)"
proof -
  have v: "\<forall>c \<in> set cs. day c \<in> set DAYS_OF_WEEK"
    using append_subjects_days [OF assms] by simp
  let ?out = "sort_key total_key cs"
  obtain lo hi where b: "compute_time_bounds ?out = (lo, hi)"
    by (cases "compute_time_bounds ?out")
  have p: "build_payload tt = Inr \<lparr>startMinP = lo, endMinP = hi, coursesP = ?out\<rparr>"
    using assms b by (simp add: build_payload_def sort_courses_valid [OF v])
  have m: "mset ?out = mset cs" by simp
  have s: "sorted_wrt spec_order ?out" by (rule sorted_wrt_spec_order)
  have f: "\<forall>k. filter (\<lambda>c. total_key c = k) ?out = filter (\<lambda>c. total_key c = k) cs"
    by (simp add: sort_key_stable)
  from p m s f spec_order_total show ?thesis by auto
qed

theorem build_payload_sorted_witness:
  "\<exists>P. build_payload ex_timetable = Inr P \<and> sorted_wrt spec_order (coursesP P) \<and> length (coursesP P) = 3"
proof -
  obtain cs where c: "append_subjects (subjects ex_timetable) [] = Inr cs"
    using ex_flat by (cases "append_subjects (subjects ex_timetable) []") auto
  have l: "length cs = 3" using ex_flat c by auto
  from build_payload_sorted [OF c] obtain P where p: "build_payload ex_timetable = Inr P"
    "mset (coursesP P) = mset cs" "sorted_wrt spec_order (coursesP P)"
    by blast
  have "length (coursesP P) = 3" using mset_eq_length [OF p(2)] l by simp
  with p show ?thesis by blast
qed

section \<open>The ids of the flattened sessions\<close>

subsection \<open>The decimal form of an index\<close>







subsection \<open>Reading an id\<close>

















section \<open>Reading a session's time\<close>

subsection \<open>Splitting\<close>

lemma split_chr_nonempty: "split_chr sep s \<noteq> []"
  by (induction s) (auto split: list.splits)

lemma split_chr_single: "split_chr sep s = [x] \<longleftrightarrow> s = x \<and> sep \<notin> set x"
proof (induction s arbitrary: x)
  case Nil
  show ?case by auto
next
  case (Cons c cs)
  show ?case
  proof (cases "c = sep")
    case True
    then show ?thesis using split_chr_nonempty [of sep cs] by auto
  next
    case False
    then show ?thesis using Cons [of "tl x"] split_chr_nonempty [of sep cs]
      by (cases x) (auto split: list.splits)
  qed
qed

lemma split_chr_two:
  "split_chr sep s = [x, y] \<longleftrightarrow> s = x @ sep # y \<and> sep \<notin> set x \<and> sep \<notin> set y"
proof (induction s arbitrary: x)
  case Nil
  show ?case by auto
next
  case (Cons c cs)
  show ?case
  proof (cases "c = sep")
    case True
    then show ?thesis using split_chr_single [of sep cs y]
      by (cases x) auto
  next
    case False
    then show ?thesis using Cons [of "tl x"] split_chr_nonempty [of sep cs]
      by (cases x) (auto split: list.splits)
  qed
qed

lemma split_once_two:
  "split_once sep s = [x, y] \<longleftrightarrow> s = x @ sep # y \<and> sep \<notin> set x"
proof
  assume h: "split_once sep s = [x, y]"
  then obtain r where d: "dropWhile (\<lambda>c. c \<noteq> sep) s = sep # r"
    by (cases "dropWhile (\<lambda>c. c \<noteq> sep) s") (auto simp: split_once_def dropWhile_eq_Cons_conv)
  with h have x: "x = takeWhile (\<lambda>c. c \<noteq> sep) s" and y: "y = r"
    by (auto simp: split_once_def)
  have "s = takeWhile (\<lambda>c. c \<noteq> sep) s @ dropWhile (\<lambda>c. c \<noteq> sep) s" by simp
  with d x y have "s = x @ sep # y" by simp
  moreover have "sep \<notin> set x" using x by (auto dest: set_takeWhileD)
  ultimately show "s = x @ sep # y \<and> sep \<notin> set x" by simp
next
  assume h: "s = x @ sep # y \<and> sep \<notin> set x"
  then have "takeWhile (\<lambda>c. c \<noteq> sep) s = x" "dropWhile (\<lambda>c. c \<noteq> sep) s = sep # y"
    by (auto simp: takeWhile_tail dropWhile_append3)
  then show "split_once sep s = [x, y]" by (simp add: split_once_def)
qed


subsection \<open>\<open>from_string\<close> and \<open>get_time\<close>\<close>

lemma from_string_iff:
  "from_string v = Inr t \<longleftrightarrow>
     (\<exists>a b. v = a @ CHR '':'' # b \<and> CHR '':'' \<notin> set a \<and> CHR '':'' \<notin> set b
        \<and> py_int a = Some (hour t) \<and> py_int b = Some (minute t))"
proof
  assume h: "from_string v = Inr t"
  then obtain a b where s: "split_chr CHR '':'' v = [a, b]"
    by (auto simp: from_string_def split: list.splits)
  with h have "py_int a = Some (hour t) \<and> py_int b = Some (minute t)"
    by (auto simp: from_string_def split: option.splits)
  with s show "\<exists>a b. v = a @ CHR '':'' # b \<and> CHR '':'' \<notin> set a \<and> CHR '':'' \<notin> set b
        \<and> py_int a = Some (hour t) \<and> py_int b = Some (minute t)"
    by (auto simp: split_chr_two)
next
  assume "\<exists>a b. v = a @ CHR '':'' # b \<and> CHR '':'' \<notin> set a \<and> CHR '':'' \<notin> set b
        \<and> py_int a = Some (hour t) \<and> py_int b = Some (minute t)"
  then obtain a b where v: "v = a @ CHR '':'' # b \<and> CHR '':'' \<notin> set a \<and> CHR '':'' \<notin> set b"
      and p: "py_int a = Some (hour t)" "py_int b = Some (minute t)"
    by blast
  from v have "split_chr CHR '':'' v = [a, b]" unfolding split_chr_two by simp
  with p show "from_string v = Inr t" by (simp add: from_string_def)
qed

lemma day_no_colon: "d \<in> set DAYS_OF_WEEK \<Longrightarrow> CHR '':'' \<notin> set d"
  by (auto simp: DAYS_OF_WEEK_def)

lemma get_time_iff: "get_time self = Inr ct \<longleftrightarrow> reads_as (time self) ct"
proof
  assume h: "get_time self = Inr ct"
  then obtain d hs where s: "split_once CHR '':'' (time self) = [d, hs]"
    by (auto simp: get_time_def split: list.splits)
  with h have dm: "d \<in> set DAYS_OF_WEEK"
    by (auto simp: get_time_def split: if_splits)
  with h s obtain s1 s2 where t: "split_chr CHR ''-'' hs = [s1, s2]"
    by (auto simp: get_time_def split: list.splits)
  with h s dm obtain st en where f: "from_string s1 = Inr st" "from_string s2 = Inr en"
      and c: "ct = \<lparr>ClassTime.day = d, start_time = st, end_time = en\<rparr>"
    by (auto simp: get_time_def split: sum.splits)
  from f(1) obtain a b where a: "s1 = a @ CHR '':'' # b" "CHR '':'' \<notin> set a" "CHR '':'' \<notin> set b"
      "py_int a = Some (hour st)" "py_int b = Some (minute st)"
    unfolding from_string_iff by blast
  from f(2) obtain c' e where e: "s2 = c' @ CHR '':'' # e" "CHR '':'' \<notin> set c'" "CHR '':'' \<notin> set e"
      "py_int c' = Some (hour en)" "py_int e = Some (minute en)"
    unfolding from_string_iff by blast
  from s have s': "time self = d @ CHR '':'' # hs" by (simp add: split_once_two)
  from t have t': "hs = s1 @ CHR ''-'' # s2" "CHR ''-'' \<notin> set s1" "CHR ''-'' \<notin> set s2"
    by (simp_all add: split_chr_two)
  show "reads_as (time self) ct"
    unfolding reads_as_def
    apply (rule exI [of _ a], rule exI [of _ b], rule exI [of _ c'], rule exI [of _ e])
    using s' t' a e c dm by simp
next
  assume "reads_as (time self) ct"
  then obtain a b c e where
      s: "time self = ClassTime.day ct @ '':'' @ a @ '':'' @ b @ ''-'' @ c @ '':'' @ e"
      and dm: "ClassTime.day ct \<in> set DAYS_OF_WEEK"
      and n: "CHR '':'' \<notin> set a" "CHR ''-'' \<notin> set a" "CHR '':'' \<notin> set b" "CHR ''-'' \<notin> set b"
        "CHR '':'' \<notin> set c" "CHR ''-'' \<notin> set c" "CHR '':'' \<notin> set e" "CHR ''-'' \<notin> set e"
      and p: "py_int a = Some (hour (start_time ct))" "py_int b = Some (minute (start_time ct))"
        "py_int c = Some (hour (end_time ct))" "py_int e = Some (minute (end_time ct))"
    unfolding reads_as_def by blast
  let ?hs = "a @ '':'' @ b @ ''-'' @ c @ '':'' @ e"
  have 1: "split_once CHR '':'' (time self) = [ClassTime.day ct, ?hs]"
    unfolding split_once_two using s day_no_colon [OF dm] by simp
  have 2: "split_chr CHR ''-'' ?hs = [a @ '':'' @ b, c @ '':'' @ e]"
    unfolding split_chr_two using n by simp
  have 3: "from_string (a @ '':'' @ b) = Inr (start_time ct)"
    unfolding from_string_iff using n p by auto
  have 4: "from_string (c @ '':'' @ e) = Inr (end_time ct)"
    unfolding from_string_iff using n p by auto
  show "get_time self = Inr ct"
    using 1 2 3 4 dm by (simp add: get_time_def)
qed

text \<open>
  Claim C2, as amended. \<open>get_time\<close> raises \<open>ValueError\<close> exactly when the time string of the
  session is not a recognised day code, a colon, and two times \<open>h:m\<close> separated by a hyphen
  whose four pieces \<open>int\<close> accepts; otherwise it returns the day and the four numbers as
  they were read. The start is not compared with the end.
\<close>

theorem get_time_malformed:
  "(get_time self = Inl ValueError \<longleftrightarrow> \<not> (\<exists>ct. reads_as (time self) ct))
   \<and> (get_time self = Inr ct \<longleftrightarrow> reads_as (time self) ct)"
proof
  have "get_time self = Inl ValueError \<longleftrightarrow> \<not> (\<exists>ct. get_time self = Inr ct)"
    by (cases "get_time self") (auto intro: error.exhaust)
  then show "get_time self = Inl ValueError \<longleftrightarrow> \<not> (\<exists>ct. reads_as (time self) ct)"
    by (simp add: get_time_iff)
  show "get_time self = Inr ct \<longleftrightarrow> reads_as (time self) ct"
    by (rule get_time_iff)
qed

text \<open>
  The claim as stated fails: the session \<open>CS:12:00-10:00\<close> starts at minute 720 and ends at
  minute 600, and \<open>get_time\<close> returns it.
\<close>

theorem get_time_reversed_counterexample:
  "get_time ex_reversed
     = Inr \<lparr>ClassTime.day = ''CS'', start_time = \<lparr>hour = 12, minute = 0\<rparr>,
            end_time = \<lparr>hour = 10, minute = 0\<rparr>\<rparr>
   \<and> to_minutes \<lparr>hour = 12, minute = 0\<rparr> = 720
   \<and> to_minutes \<lparr>hour = 10, minute = 0\<rparr> = 600"
proof -
  have "get_time ex_reversed
     = Inr \<lparr>ClassTime.day = ''CS'', start_time = \<lparr>hour = 12, minute = 0\<rparr>,
            end_time = \<lparr>hour = 10, minute = 0\<rparr>\<rparr>"
    by code_simp
  then show ?thesis by (simp add: to_minutes_def)
qed

text \<open>The session \<open>CS:10:15-12:00\<close> is read as Thursday, 10:15 to 12:00.\<close>

theorem get_time_malformed_witness:
  "reads_as (time ex_course)
     \<lparr>ClassTime.day = ''CS'', start_time = \<lparr>hour = 10, minute = 15\<rparr>,
      end_time = \<lparr>hour = 12, minute = 0\<rparr>\<rparr>
   \<and> get_time ex_course \<noteq> Inl ValueError"
proof -
  have g: "get_time ex_course
      = Inr \<lparr>ClassTime.day = ''CS'', start_time = \<lparr>hour = 10, minute = 15\<rparr>,
             end_time = \<lparr>hour = 12, minute = 0\<rparr>\<rparr>"
    by code_simp
  from g get_time_malformed [of ex_course "\<lparr>ClassTime.day = ''CS'',
      start_time = \<lparr>hour = 10, minute = 15\<rparr>, end_time = \<lparr>hour = 12, minute = 0\<rparr>\<rparr>"]
  have r: "reads_as (time ex_course)
     \<lparr>ClassTime.day = ''CS'', start_time = \<lparr>hour = 10, minute = 15\<rparr>,
      end_time = \<lparr>hour = 12, minute = 0\<rparr>\<rparr>"
    by blast
  from g have "get_time ex_course \<noteq> Inl ValueError" by simp
  with r show ?thesis by (rule conjI)
qed

end
